theory Spec2Isabelle
  imports Complex_Main "HOL-Library.Sublist" "HOL-Library.AList" "HOL-Library.Log_Nat"
begin

section \<open>Data model: pandas Series and DataFrame\<close>

text \<open>
  A cell of a float column is a finite double, given by its value, or NaN (\<open>None\<close>), which
  is also the null marker of such a column.
\<close>

type_synonym float64 = "real option"

abbreviation NaN :: float64 where
  "NaN \<equiv> None"

text \<open>
  A cell of an object column: text, Python's \<open>None\<close> or a float NaN; the last two are
  its nulls.
\<close>

datatype object_value = Text string | NoneValue | NaNValue

fun object_notna :: "object_value \<Rightarrow> bool" where
  "object_notna (Text _) = True"
| "object_notna _ = False"

text \<open>
  A Series carries its dtype together with values of that dtype: integer and boolean
  columns have no nulls, a float column has NaN, a category or datetime column has
  \<open>NaN\<close>/\<open>NaT\<close> (a timestamp is carried as its text form).
\<close>

datatype series =
    Int64 "int list"
  | Float64 "float64 list"
  | Bool "bool list"
  | Object "object_value list"
  | Category "string option list"
  | Datetime64 "string option list"

text \<open>
  A DataFrame is the ordered list of its named columns. All columns of a DataFrame have
  the same length; column labels are unique in a table as the specification defines it,
  and the theorems that need this say so.
\<close>

type_synonym dataframe = "(string \<times> series) list"

definition columns :: "dataframe \<Rightarrow> string list" where
  "columns df = map fst df"

fun len :: "series \<Rightarrow> nat" where
  "len (Int64 xs) = length xs"
| "len (Float64 xs) = length xs"
| "len (Bool xs) = length xs"
| "len (Object xs) = length xs"
| "len (Category xs) = length xs"
| "len (Datetime64 xs) = length xs"

primrec dropna :: "'a option list \<Rightarrow> 'a list" where
  "dropna [] = []"
| "dropna (x # xs) = (case x of None \<Rightarrow> dropna xs | Some v \<Rightarrow> v # dropna xs)"

text \<open>\<open>Series.nunique(dropna=True)\<close>: the number of distinct non-null values.\<close>

fun nunique :: "series \<Rightarrow> nat" where
  "nunique (Int64 xs) = length (remdups xs)"
| "nunique (Float64 xs) = length (remdups (dropna xs))"
| "nunique (Bool xs) = length (remdups xs)"
| "nunique (Object xs) = length (remdups (filter object_notna xs))"
| "nunique (Category xs) = length (remdups (dropna xs))"
| "nunique (Datetime64 xs) = length (remdups (dropna xs))"

text \<open>The dtype tests of \<open>select_dtypes\<close>: \<open>include=["number"]\<close> and
  \<open>include=["object", "category", "bool"]\<close>.\<close>

fun is_number :: "series \<Rightarrow> bool" where
  "is_number (Int64 _) = True"
| "is_number (Float64 _) = True"
| "is_number _ = False"

fun is_object_category_bool :: "series \<Rightarrow> bool" where
  "is_object_category_bool (Object _) = True"
| "is_object_category_bool (Category _) = True"
| "is_object_category_bool (Bool _) = True"
| "is_object_category_bool _ = False"

definition select_dtypes :: "(series \<Rightarrow> bool) \<Rightarrow> dataframe \<Rightarrow> dataframe" where
  "select_dtypes include df = filter (\<lambda>(c, s). include s) df"

text \<open>\<open>df[col]\<close>: every column carrying the label. One hit is a Series, several are a
  DataFrame.\<close>

definition getitem :: "dataframe \<Rightarrow> string \<Rightarrow> series list" where
  "getitem df col = map snd (filter (\<lambda>(c, s). c = col) df)"

section \<open>Column classification (eda\_dashboard.py and dash\_plotter.py)\<close>

text \<open>
  The guarded test of the loop body, \<open>df[col].nunique(dropna=True) <= cat_threshold\<close>.
  \<open>None\<close> is the exception that the \<open>try\<close> swallows: with a repeated label
  \<open>df[col]\<close> is a DataFrame, the comparison yields a Series and its truth value raises.
\<close>

definition low_cardinality :: "dataframe \<Rightarrow> int \<Rightarrow> string \<Rightarrow> bool option" where
  "low_cardinality df cat_threshold col =
     (case getitem df col of
        [s] \<Rightarrow> Some (int (nunique s) \<le> cat_threshold)
      | _ \<Rightarrow> None)"

text \<open>The loop \<open>for col in numeric\<close>, appending to \<open>categorical\<close>.\<close>

fun append_low_cardinality :: "dataframe \<Rightarrow> int \<Rightarrow> string list \<Rightarrow> string list \<Rightarrow> string list" where
  "append_low_cardinality df cat_threshold [] categorical = categorical"
| "append_low_cardinality df cat_threshold (col # numeric) categorical =
     (case low_cardinality df cat_threshold col of
        Some True \<Rightarrow> append_low_cardinality df cat_threshold numeric (categorical @ [col])
      | Some False \<Rightarrow> append_low_cardinality df cat_threshold numeric categorical
      | None \<Rightarrow> append_low_cardinality df cat_threshold numeric categorical)"

text \<open>\<open>[c for i, c in enumerate(categorical) if c not in categorical[:i]]\<close>\<close>

definition dedupe :: "'a list \<Rightarrow> 'a list" where
  "dedupe xs = map snd (filter (\<lambda>(i, c). c \<notin> set (take i xs)) (enumerate 0 xs))"

definition infer_column_types :: "dataframe \<Rightarrow> int \<Rightarrow> string list \<times> string list" where
  "infer_column_types df cat_threshold =
     (let numeric = columns (select_dtypes is_number df);
          categorical = columns (select_dtypes is_object_category_bool df);
          categorical = append_low_cardinality df cat_threshold numeric categorical;
          categorical = dedupe categorical
      in (numeric, categorical))"

text \<open>Keeping the first occurrence of every element, with the elements seen so far.\<close>

fun first_occurrences :: "'a set \<Rightarrow> 'a list \<Rightarrow> 'a list" where
  "first_occurrences seen [] = []"
| "first_occurrences seen (x # xs) =
     (if x \<in> seen then first_occurrences seen xs
      else x # first_occurrences (insert x seen) xs)"

section \<open>Selector options (dash\_plotter.py and eda\_dashboard.py)\<close>

record dropdown_option =
  opt_label :: string
  opt_value :: string

text \<open>\<open>[{"label": c, "value": c} for c in cols]\<close>\<close>

definition options_for :: "string list \<Rightarrow> dropdown_option list" where
  "options_for cols = map (\<lambda>c. \<lparr>opt_label = c, opt_value = c\<rparr>) cols"

definition first_or_none :: "dropdown_option list \<Rightarrow> string option" where
  "first_or_none opts = (case opts of [] \<Rightarrow> None | opt # _ \<Rightarrow> Some (opt_value opt))"

text \<open>The eight outputs of the callback, named after the component properties they feed.\<close>

record selector_outputs =
  x_options :: "dropdown_option list"
  y_options :: "dropdown_option list"
  color_options :: "dropdown_option list"
  size_options :: "dropdown_option list"
  x_value :: "string option"
  y_value :: "string option"
  color_value :: "string option"
  size_value :: "string option"

text \<open>
  \<open>update_column_options(df_json, plot_type)\<close> of dash\_plotter.py, on the parsed table.
  The inputs are the stored table and the plot type only.
\<close>

definition update_column_options :: "dataframe \<Rightarrow> string \<Rightarrow> selector_outputs" where
  "update_column_options df plot_type =
     (let (numeric, categorical) = infer_column_types df 20;
          all_options = options_for (columns df);
          (x_opts, y_opts, size_opts, color_opts) =
            (if plot_type = ''scatter'' then
               (options_for numeric, options_for numeric, options_for numeric, all_options)
             else if plot_type = ''box'' \<or> plot_type = ''violin'' then
               (options_for categorical, options_for numeric, [], all_options)
             else if plot_type = ''bar'' then
               (options_for categorical, options_for numeric, [], all_options)
             else if plot_type = ''hist'' then
               (options_for (numeric @ categorical), [], [], all_options)
             else
               (all_options, all_options, all_options, all_options))
      in \<lparr>x_options = x_opts, y_options = y_opts, color_options = color_opts,
          size_options = size_opts,
          x_value = first_or_none x_opts, y_value = first_or_none y_opts,
          color_value = None, size_value = None\<rparr>)"

text \<open>\<open>eda_update_plot_options(df_json, plot_type)\<close> of eda\_dashboard.py: the same body.\<close>

definition eda_update_plot_options :: "dataframe \<Rightarrow> string \<Rightarrow> selector_outputs" where
  "eda_update_plot_options df plot_type =
     (let (numeric, categorical) = infer_column_types df 20;
          all_options = options_for (columns df);
          (x_opts, y_opts, size_opts, color_opts) =
            (if plot_type = ''scatter'' then
               (options_for numeric, options_for numeric, options_for numeric, all_options)
             else if plot_type = ''box'' \<or> plot_type = ''violin'' then
               (options_for categorical, options_for numeric, [], all_options)
             else if plot_type = ''bar'' then
               (options_for categorical, options_for numeric, [], all_options)
             else if plot_type = ''hist'' then
               (options_for (numeric @ categorical), [], [], all_options)
             else
               (all_options, all_options, all_options, all_options))
      in \<lparr>x_options = x_opts, y_options = y_opts, color_options = color_opts,
          size_options = size_opts,
          x_value = first_or_none x_opts, y_value = first_or_none y_opts,
          color_value = None, size_value = None\<rparr>)"

section \<open>Double arithmetic and pandas reductions\<close>

text \<open>
  The binary64 format: a finite double is \<open>m * 2 powi e\<close> with \<open>\<bar>m\<bar> < 2 ^ 53\<close> and
  \<open>- 1074 \<le> e \<le> 971\<close>. \<open>rnd\<close> rounds a real to the nearest such number without the upper
  bound on the exponent, ties to the even significand: \<open>ulp_exponent x\<close> is the exponent of
  the last place in the binade of \<open>x\<close>, and \<open>- 1074\<close> below the normal range.
\<close>

definition round_half_even :: "real \<Rightarrow> int" where
  "round_half_even t =
     (let f = \<lfloor>t\<rfloor>; r = t - of_int f
      in if r < 1 / 2 then f else if r > 1 / 2 then f + 1 else if even f then f else f + 1)"

definition ulp_exponent :: "real \<Rightarrow> int" where
  "ulp_exponent x =
     (if \<bar>x\<bar> < 2 powi (- 1022) then - 1074
      else bitlen \<lfloor>\<bar>x\<bar> * 2 powi 1022\<rfloor> - 1075)"

definition rnd :: "real \<Rightarrow> real" where
  "rnd x = of_int (round_half_even (x / 2 powi ulp_exponent x)) * 2 powi ulp_exponent x"

definition max_double :: real where
  "max_double = (2 ^ 53 - 1) * 2 ^ 971"

text \<open>
  The value of an arithmetic operation: a finite double, an infinity or NaN. The sign of
  a zero is not kept. \<open>to_double\<close> is the rounding of an exact result, to an infinity when
  the rounded value exceeds the largest double.
\<close>

datatype double = Finite real | PosInf | NegInf | NotANumber

definition to_double :: "real \<Rightarrow> double" where
  "to_double x =
     (if rnd x > max_double then PosInf
      else if rnd x < - max_double then NegInf
      else Finite (rnd x))"

definition of_float64 :: "float64 \<Rightarrow> double" where
  "of_float64 v = (case v of None \<Rightarrow> NotANumber | Some x \<Rightarrow> Finite x)"

fun dneg :: "double \<Rightarrow> double" where
  "dneg (Finite x) = Finite (- x)"
| "dneg PosInf = NegInf"
| "dneg NegInf = PosInf"
| "dneg NotANumber = NotANumber"

fun dadd :: "double \<Rightarrow> double \<Rightarrow> double" where
  "dadd (Finite x) (Finite y) = to_double (x + y)"
| "dadd NotANumber _ = NotANumber"
| "dadd _ NotANumber = NotANumber"
| "dadd PosInf NegInf = NotANumber"
| "dadd NegInf PosInf = NotANumber"
| "dadd PosInf _ = PosInf"
| "dadd _ PosInf = PosInf"
| "dadd NegInf _ = NegInf"
| "dadd _ NegInf = NegInf"

definition dsub :: "double \<Rightarrow> double \<Rightarrow> double" where
  "dsub a b = dadd a (dneg b)"

fun dmul :: "double \<Rightarrow> double \<Rightarrow> double" where
  "dmul (Finite x) (Finite y) = to_double (x * y)"
| "dmul NotANumber _ = NotANumber"
| "dmul _ NotANumber = NotANumber"
| "dmul (Finite x) b = (if x = 0 then NotANumber else if 0 < x then b else dneg b)"
| "dmul a (Finite y) = (if y = 0 then NotANumber else if 0 < y then a else dneg a)"
| "dmul PosInf b = b"
| "dmul NegInf b = dneg b"

fun ddiv :: "double \<Rightarrow> double \<Rightarrow> double" where
  "ddiv (Finite x) (Finite y) =
     (if y = 0 then (if x = 0 then NotANumber else if 0 < x then PosInf else NegInf)
      else to_double (x / y))"
| "ddiv NotANumber _ = NotANumber"
| "ddiv _ NotANumber = NotANumber"
| "ddiv (Finite x) _ = Finite 0"
| "ddiv a (Finite y) = (if 0 \<le> y then a else dneg a)"
| "ddiv _ _ = NotANumber"

text \<open>
  The reductions of a pandas Series, on the non-null values (\<open>skipna\<close> is the default):
  an empty Series reduces to NaN, \<open>std\<close> has \<open>ddof=1\<close>, \<open>quantile\<close> interpolates
  linearly, \<open>mode\<close> returns the most frequent values in ascending order.
\<close>

definition pd_mean :: "real list \<Rightarrow> float64" where
  "pd_mean xs = (if xs = [] then NaN else Some (sum_list xs / real (length xs)))"

definition pd_median :: "real list \<Rightarrow> float64" where
  "pd_median xs =
     (let s = sort xs; n = length s
      in if n = 0 then NaN
         else if odd n then Some (s ! (n div 2))
         else Some ((s ! (n div 2 - 1) + s ! (n div 2)) / 2))"

definition pd_mode :: "real list \<Rightarrow> real list" where
  "pd_mode xs =
     (if xs = [] then []
      else sort (remdups (filter (\<lambda>v. count_list xs v = Max (set (map (count_list xs) xs))) xs)))"

definition pd_std :: "real list \<Rightarrow> float64" where
  "pd_std xs =
     (if length xs < 2 then NaN
      else Some (sqrt (sum_list (map (\<lambda>x. (x - sum_list xs / real (length xs))\<^sup>2) xs)
                       / real (length xs - 1))))"

definition pd_min :: "real list \<Rightarrow> float64" where
  "pd_min xs = (if xs = [] then NaN else Some (Min (set xs)))"

definition pd_max :: "real list \<Rightarrow> float64" where
  "pd_max xs = (if xs = [] then NaN else Some (Max (set xs)))"

definition pd_quantile :: "real \<Rightarrow> real list \<Rightarrow> float64" where
  "pd_quantile q xs =
     (let s = sort xs; n = length s
      in if n = 0 then NaN
         else (let pos = q * real (n - 1);
                   lo = nat \<lfloor>pos\<rfloor>;
                   hi = min (lo + 1) (n - 1)
               in Some (s ! lo + (pos - real lo) * (s ! hi - s ! lo))))"

section \<open>Descriptive statistics and correlation (eda\_dashboard.py)\<close>

text \<open>\<open>compute_numeric_stats(series)\<close> on the values of a numeric column as floats
  (an integer column has no nulls); the result dict in insertion order.\<close>

definition compute_numeric_stats :: "float64 list \<Rightarrow> (string \<times> float64) list" where
  "compute_numeric_stats series =
     (let clean = dropna series
      in [(''mean'', pd_mean clean),
          (''median'', pd_median clean),
          (''mode'', if length (pd_mode clean) > 0 then Some (pd_mode clean ! 0) else NaN),
          (''std'', pd_std clean),
          (''min'', pd_min clean),
          (''max'', pd_max clean),
          (''q1'', pd_quantile 0.25 clean),
          (''q3'', pd_quantile 0.75 clean)])"

text \<open>The error kinds that the specification names or that the code raises.\<close>

datatype error = InsufficientDataError | ValueError | IndexError

text \<open>\<open>Series.notna()\<close> and boolean indexing \<open>s[mask]\<close>.\<close>

fun notna :: "series \<Rightarrow> bool list" where
  "notna (Int64 xs) = map (\<lambda>_. True) xs"
| "notna (Float64 xs) = map (\<lambda>v. v \<noteq> NaN) xs"
| "notna (Bool xs) = map (\<lambda>_. True) xs"
| "notna (Object xs) = map object_notna xs"
| "notna (Category xs) = map (\<lambda>v. v \<noteq> None) xs"
| "notna (Datetime64 xs) = map (\<lambda>v. v \<noteq> None) xs"

definition keep :: "'a list \<Rightarrow> bool list \<Rightarrow> 'a list" where
  "keep xs flags = map fst (filter snd (zip xs flags))"

fun boolean_index :: "series \<Rightarrow> bool list \<Rightarrow> series" where
  "boolean_index (Int64 xs) flags = Int64 (keep xs flags)"
| "boolean_index (Float64 xs) flags = Float64 (keep xs flags)"
| "boolean_index (Bool xs) flags = Bool (keep xs flags)"
| "boolean_index (Object xs) flags = Object (keep xs flags)"
| "boolean_index (Category xs) flags = Category (keep xs flags)"
| "boolean_index (Datetime64 xs) flags = Datetime64 (keep xs flags)"

text \<open>
  One cell of the matrix, the body of the inner loop. \<open>np.corrcoef(a, b)[0, 1]\<close> and
  \<open>spearmanr(a, b)\<close> are library routines and enter as the parameters \<open>corrcoef\<close> and
  \<open>spearmanr\<close>, from two arrays to a float.
\<close>

definition valid_mask :: "series \<Rightarrow> series \<Rightarrow> bool list" where
  "valid_mask col_i col_j = map2 (\<and>) (notna col_i) (notna col_j)"

definition correlation_cell ::
  "(series \<Rightarrow> series \<Rightarrow> float64) \<Rightarrow> (series \<Rightarrow> series \<Rightarrow> float64) \<Rightarrow>
   dataframe \<Rightarrow> string \<Rightarrow> nat \<Rightarrow> nat \<Rightarrow> float64" where
  "correlation_cell corrcoef spearmanr numeric_df method i j =
     (if i = j then Some 1
      else
        (let valid = valid_mask (snd (numeric_df ! i)) (snd (numeric_df ! j));
             valid_data_i = boolean_index (snd (numeric_df ! i)) valid;
             valid_data_j = boolean_index (snd (numeric_df ! j)) valid
         in if len valid_data_i > 1 then
              (let corr = (if method = ''spearman'' then spearmanr valid_data_i valid_data_j
                           else corrcoef valid_data_i valid_data_j)
               in if corr \<noteq> NaN then corr else Some 0)
            else Some 0))"

text \<open>\<open>corr_matrix[i, j] = v\<close>\<close>

definition set_cell :: "float64 list list \<Rightarrow> nat \<Rightarrow> nat \<Rightarrow> float64 \<Rightarrow> float64 list list" where
  "set_cell m i j v = m[i := (m ! i)[j := v]]"

text \<open>
  \<open>create_correlation_matrix(df, method)\<close>: Python's \<open>None\<close> for fewer than two numeric
  columns, else the matrix filled by the two nested loops over \<open>range(n_cols)\<close>.
\<close>

definition create_correlation_matrix ::
  "(series \<Rightarrow> series \<Rightarrow> float64) \<Rightarrow> (series \<Rightarrow> series \<Rightarrow> float64) \<Rightarrow>
   dataframe \<Rightarrow> string \<Rightarrow> error + float64 list list option" where
  "create_correlation_matrix corrcoef spearmanr df method =
     (let numeric_df = select_dtypes is_number df
      in if length numeric_df < 2 then Inr None
         else
           (let n_cols = length numeric_df;
                corr_matrix = replicate n_cols (replicate n_cols (Some 0))
            in Inr (Some
                 (fold (\<lambda>i m.
                    fold (\<lambda>j m.
                      set_cell m i j (correlation_cell corrcoef spearmanr numeric_df method i j))
                      [0..<n_cols] m)
                    [0..<n_cols] corr_matrix))))"

section \<open>Figure builder (simple\_plotter.py)\<close>

datatype pyval = PyInt int | PyFloat double | PyBool bool | PyStr string | PyTimestamp string
  | PyNone | PyNaT

text \<open>\<open>pd.api.types.is_numeric_dtype\<close>: integer, float and also boolean dtypes.\<close>

fun is_numeric_series :: "series \<Rightarrow> bool" where
  "is_numeric_series (Int64 _) = True"
| "is_numeric_series (Float64 _) = True"
| "is_numeric_series (Bool _) = True"
| "is_numeric_series _ = False"

fun tolist :: "series \<Rightarrow> pyval list" where
  "tolist (Int64 xs) = map PyInt xs"
| "tolist (Float64 xs) = map (\<lambda>v. PyFloat (of_float64 v)) xs"
| "tolist (Bool xs) = map PyBool xs"
| "tolist (Object xs) =
     map (\<lambda>v. case v of Text t \<Rightarrow> PyStr t | NoneValue \<Rightarrow> PyNone | NaNValue \<Rightarrow> PyFloat NotANumber) xs"
| "tolist (Category xs) = map (\<lambda>v. case v of None \<Rightarrow> PyFloat NotANumber | Some t \<Rightarrow> PyStr t) xs"
| "tolist (Datetime64 xs) = map (\<lambda>v. case v of None \<Rightarrow> PyNaT | Some t \<Rightarrow> PyTimestamp t) xs"

text \<open>
  \<open>s.astype(float)\<close>: a 64-bit integer is rounded to the nearest double (it never
  overflows), a boolean becomes 1.0 or 0.0; text and timestamps do not convert, and the
  builder converts numeric columns only.
\<close>

fun astype_float :: "series \<Rightarrow> error + float64 list" where
  "astype_float (Int64 xs) = Inr (map (\<lambda>k. Some (rnd (real_of_int k))) xs)"
| "astype_float (Float64 xs) = Inr xs"
| "astype_float (Bool xs) = Inr (map (\<lambda>b. Some (if b then 1 else 0)) xs)"
| "astype_float _ = Inl ValueError"

text \<open>
  \<open>size_transform(s)\<close>: the constant 10 for a column that is not numeric or whose range
  is zero or NaN, else \<open>5 + ((arr - arr.min()) / rng) * 20\<close> row by row, every operation
  in double arithmetic.
\<close>

definition size_transform :: "series \<Rightarrow> error + pyval list" where
  "size_transform s =
     (if \<not> is_numeric_series s then Inr (replicate (len s) (PyInt 10))
      else
        (case astype_float s of
           Inl e \<Rightarrow> Inl e
         | Inr arr \<Rightarrow>
             (let rng = dsub (of_float64 (pd_max (dropna arr))) (of_float64 (pd_min (dropna arr)))
              in if rng = Finite 0 \<or> rng = NotANumber
                 then Inr (replicate (length arr) (PyInt 10))
                 else
                   (let scaled =
                          map (\<lambda>v. dadd (Finite 5)
                                     (dmul (ddiv (dsub (of_float64 v)
                                                       (of_float64 (pd_min (dropna arr)))) rng)
                                           (Finite 20)))
                              arr
                    in Inr (map PyFloat scaled)))))"

text \<open>
  The axis transform, \<open>s.astype(str).tolist() if not is_numeric_series(s) else s.tolist()\<close>:
  text for the columns that are not numeric (\<open>None\<close> prints as \<open>None\<close>, a NaN as
  \<open>nan\<close>, a missing timestamp as \<open>NaT\<close>), the values themselves otherwise.
\<close>

fun axis_transform :: "series \<Rightarrow> pyval list" where
  "axis_transform (Object xs) =
     map (\<lambda>v. PyStr (case v of Text t \<Rightarrow> t | NoneValue \<Rightarrow> ''None'' | NaNValue \<Rightarrow> ''nan'')) xs"
| "axis_transform (Category xs) = map (\<lambda>v. PyStr (case v of None \<Rightarrow> ''nan'' | Some t \<Rightarrow> t)) xs"
| "axis_transform (Datetime64 xs) = map (\<lambda>v. PyStr (case v of None \<Rightarrow> ''NaT'' | Some t \<Rightarrow> t)) xs"
| "axis_transform s = tolist s"

text \<open>
  A button of an update menu: \<open>{"method": method, "label": col, "args": args}\<close>. The
  restyle dict maps an attribute path to the wrapped array \<open>[arr]\<close> or to a scalar; a
  relayout dict is a nested dict with text leaves.
\<close>

datatype restyle_value = Arrays "pyval list list" | Scalar pyval

datatype pydict = Leaf string | Dict "(string \<times> pydict) list"

datatype arg =
    RestyleDict "(string \<times> restyle_value) list option"
  | TraceIndices "nat list"
  | RelayoutDict pydict

record button =
  button_method :: string
  label :: string
  args :: "arg list"

text \<open>
  The body of the loop \<open>for col in cols\<close> of \<open>make_buttons_for_attr\<close>, for the column
  \<open>col\<close> with transformed values \<open>arr\<close>. An absent \<open>relayout_fn\<close> is \<open>None\<close>; an absent
  or empty \<open>extra_payload\<close> is the empty list, and a payload value that is not callable is
  a constant function.
\<close>

definition make_button ::
  "string \<Rightarrow> string \<Rightarrow> (string \<Rightarrow> pydict) option \<Rightarrow> (string \<times> (string \<Rightarrow> restyle_value)) list \<Rightarrow>
   string \<Rightarrow> pyval list \<Rightarrow> button" where
  "make_button attr_path mthd relayout_fn extra_payload col arr =
     (let restyle_dict =
            (if mthd = ''restyle'' \<or> mthd = ''update'' then
               Some (fold (\<lambda>(k, v) d. AList.update k (v col) d) extra_payload
                       [(attr_path, Arrays [arr])])
             else None);
          relayout = (case relayout_fn of Some f \<Rightarrow> f col | None \<Rightarrow> Dict []);
          args =
            (if mthd = ''restyle'' then [RestyleDict restyle_dict, TraceIndices [0]]
             else if mthd = ''update'' then [RestyleDict restyle_dict, RelayoutDict relayout]
             else if mthd = ''relayout'' then [TraceIndices [0], RelayoutDict relayout]
             else [RestyleDict restyle_dict, TraceIndices [0]])
      in \<lparr>button_method = mthd, label = col, args = args\<rparr>)"

text \<open>
  \<open>make_buttons_for_attr\<close>: one button per column of the table, in column order. With
  unique labels \<open>df[col]\<close> is the column itself, so the loop runs over the labelled
  columns. A transform that raises ends the loop with its error.
\<close>

fun make_buttons_for_attr ::
  "dataframe \<Rightarrow> string \<Rightarrow> (series \<Rightarrow> error + pyval list) \<Rightarrow> string \<Rightarrow>
   (string \<Rightarrow> pydict) option \<Rightarrow> (string \<times> (string \<Rightarrow> restyle_value)) list \<Rightarrow>
   error + button list" where
  "make_buttons_for_attr [] attr_path transform mthd relayout_fn extra_payload = Inr []"
| "make_buttons_for_attr ((col, s) # cols) attr_path transform mthd relayout_fn extra_payload =
     (case transform s of
        Inl e \<Rightarrow> Inl e
      | Inr arr \<Rightarrow>
          (case make_buttons_for_attr cols attr_path transform mthd relayout_fn extra_payload of
             Inl e \<Rightarrow> Inl e
           | Inr buttons \<Rightarrow>
               Inr (make_button attr_path mthd relayout_fn extra_payload col arr # buttons)))"

text \<open>
  The four column menus of \<open>make_scatter_with_dropdowns(df)\<close>. The function picks its
  default columns first, and \<open>cols[0]\<close> raises \<open>IndexError\<close> on a table without columns.
\<close>

definition x_buttons :: "dataframe \<Rightarrow> error + button list" where
  "x_buttons df =
     (if columns df = [] then Inl IndexError
      else make_buttons_for_attr df ''x'' (\<lambda>s. Inr (axis_transform s)) ''update''
             (Some (\<lambda>col. Dict [(''xaxis'', Dict [(''title'', Dict [(''text'', Leaf col)])])])) [])"

definition y_buttons :: "dataframe \<Rightarrow> error + button list" where
  "y_buttons df =
     (if columns df = [] then Inl IndexError
      else make_buttons_for_attr df ''y'' (\<lambda>s. Inr (axis_transform s)) ''update''
             (Some (\<lambda>col. Dict [(''yaxis'', Dict [(''title'', Dict [(''text'', Leaf col)])])])) [])"

text \<open>\<open>is_numeric_series(df[col])\<close> inside the payload of the color menu.\<close>

definition is_numeric_column :: "dataframe \<Rightarrow> string \<Rightarrow> bool" where
  "is_numeric_column df col = (case getitem df col of [s] \<Rightarrow> is_numeric_series s | _ \<Rightarrow> False)"

definition color_buttons :: "dataframe \<Rightarrow> error + button list" where
  "color_buttons df =
     (if columns df = [] then Inl IndexError
      else make_buttons_for_attr df ''marker.color'' (\<lambda>s. Inr (tolist s)) ''restyle'' None
             [(''marker.colorscale'',
                 \<lambda>col. Scalar (if is_numeric_column df col then PyStr ''Viridis'' else PyNone)),
              (''marker.showscale'',
                 \<lambda>col. Scalar (if is_numeric_column df col then PyBool True else PyBool False))])"

definition size_buttons :: "dataframe \<Rightarrow> error + button list" where
  "size_buttons df =
     (if columns df = [] then Inl IndexError
      else make_buttons_for_attr df ''marker.size'' size_transform ''restyle'' None [])"

section \<open>Properties of the classification\<close>

lemma set_dropna: "set (dropna xs) = {v. Some v \<in> set xs}"
  by (induction xs) (auto split: option.splits)

lemma nunique_ignores_nulls: "nunique (Float64 xs) = card {v. Some v \<in> set xs}"
  by (simp add: length_remdups_card_conv set_dropna)

lemma dedupe_from:
  "map snd (filter (\<lambda>(i, c). c \<notin> set (take i (ys @ xs))) (enumerate (length ys) xs))
     = first_occurrences (set ys) xs"
proof (induction xs arbitrary: ys)
  case Nil
  show ?case by simp
next
  case (Cons x xs)
  have step: "map snd (filter (\<lambda>(i, c). c \<notin> set (take i ((ys @ [x]) @ xs)))
                  (enumerate (length (ys @ [x])) xs))
                = first_occurrences (set (ys @ [x])) xs"
    by (rule Cons.IH)
  show ?case
  proof (cases "x \<in> set ys")
    case True
    then have "insert x (set ys) = set ys" by auto
    with True step show ?thesis by simp
  next
    case False
    with step show ?thesis by simp
  qed
qed

lemma dedupe_first_occurrences: "dedupe xs = first_occurrences {} xs"
  using dedupe_from [of "[]" xs] by (simp add: dedupe_def)

lemma set_first_occurrences: "set (first_occurrences seen xs) = set xs - seen"
  by (induction xs arbitrary: seen) auto

lemma distinct_first_occurrences: "distinct (first_occurrences seen xs)"
  by (induction xs arbitrary: seen) (auto simp: set_first_occurrences)

lemma first_occurrences_distinct:
  "distinct xs \<Longrightarrow> set xs \<inter> seen = {} \<Longrightarrow> first_occurrences seen xs = xs"
  by (induction xs arbitrary: seen) auto

lemma set_dedupe: "set (dedupe xs) = set xs"
  by (simp add: dedupe_first_occurrences set_first_occurrences)

lemma distinct_dedupe: "distinct (dedupe xs)"
  by (simp add: dedupe_first_occurrences distinct_first_occurrences)

lemma dedupe_distinct: "distinct xs \<Longrightarrow> dedupe xs = xs"
  by (simp add: dedupe_first_occurrences first_occurrences_distinct)

lemma append_low_cardinality_filter:
  "append_low_cardinality df t numeric categorical
     = categorical @ filter (\<lambda>col. low_cardinality df t col = Some True) numeric"
  by (induction numeric arbitrary: categorical) (auto split: option.splits bool.splits)

lemma getitem_unique:
  "distinct (map fst df) \<Longrightarrow> (c, s) \<in> set df \<Longrightarrow> getitem df c = [s]"
proof (induction df)
  case Nil
  then show ?case by simp
next
  case (Cons p df)
  obtain c' s' where p: "p = (c', s')" by (cases p)
  show ?case
  proof (cases "c' = c")
    case True
    with Cons.prems p have "s' = s" and "filter (\<lambda>(a, b). a = c) df = []"
      by (force simp: filter_empty_conv)+
    with True p show ?thesis by (simp add: getitem_def)
  next
    case False
    with Cons p show ?thesis by (auto simp: getitem_def)
  qed
qed

lemma low_cardinality_unique:
  "distinct (map fst df) \<Longrightarrow> (c, s) \<in> set df \<Longrightarrow>
   low_cardinality df t c = Some (int (nunique s) \<le> t)"
  by (simp add: low_cardinality_def getitem_unique)

lemma columns_select_mem:
  "distinct (map fst df) \<Longrightarrow> (c, s) \<in> set df \<Longrightarrow>
   c \<in> set (columns (select_dtypes P df)) \<longleftrightarrow> P s"
  by (force simp: columns_def select_dtypes_def distinct_map inj_on_def)

lemma columns_select_disjoint:
  assumes "distinct (map fst df)" and "\<And>s. P s \<Longrightarrow> \<not> Q s"
  shows "set (columns (select_dtypes P df)) \<inter> set (columns (select_dtypes Q df)) = {}"
proof -
  have "False"
    if "c \<in> set (columns (select_dtypes P df))" "c \<in> set (columns (select_dtypes Q df))" for c
  proof -
    from that obtain s s' where "(c, s) \<in> set df" "P s" "(c, s') \<in> set df" "Q s'"
      by (auto simp: columns_def select_dtypes_def)
    moreover from this assms(1) have "s = s'"
      by (meson eq_key_imp_eq_value)
    ultimately show False using assms(2) by blast
  qed
  then show ?thesis by blast
qed

lemma distinct_columns_select:
  "distinct (map fst df) \<Longrightarrow> distinct (columns (select_dtypes P df))"
  by (simp add: columns_def select_dtypes_def distinct_map_filter)

lemma subseq_columns_select: "subseq (columns (select_dtypes P df)) (columns df)"
  by (simp add: columns_def select_dtypes_def subseq_map)

lemma low_cardinality_columns:
  assumes "distinct (map fst df)"
  shows "filter (\<lambda>col. low_cardinality df t col = Some True) (columns (select_dtypes is_number df))
         = columns (select_dtypes (\<lambda>s. is_number s \<and> int (nunique s) \<le> t) df)"
proof -
  have "filter ((\<lambda>col. low_cardinality df t col = Some True) \<circ> fst)
          (filter (\<lambda>(c, s). is_number s) df)
        = filter (\<lambda>(c, s). is_number s \<and> int (nunique s) \<le> t) df"
    unfolding filter_filter
    by (rule filter_cong) (auto simp: low_cardinality_unique [OF assms])
  then show ?thesis
    by (simp add: columns_def select_dtypes_def filter_map)
qed

lemma infer_column_types_closed_form:
  assumes "distinct (map fst df)"
  shows "infer_column_types df t =
           (columns (select_dtypes is_number df),
            columns (select_dtypes is_object_category_bool df)
              @ columns (select_dtypes (\<lambda>s. is_number s \<and> int (nunique s) \<le> t) df))"
proof -
  have disj: "set (columns (select_dtypes is_object_category_bool df))
                \<inter> set (columns (select_dtypes (\<lambda>s. is_number s \<and> int (nunique s) \<le> t) df)) = {}"
    by (rule columns_select_disjoint [OF assms]) (auto elim: is_object_category_bool.elims)
  have "distinct (columns (select_dtypes is_object_category_bool df)
              @ columns (select_dtypes (\<lambda>s. is_number s \<and> int (nunique s) \<le> t) df))"
    using disj by (simp add: distinct_columns_select [OF assms])
  then show ?thesis
    by (simp add: infer_column_types_def append_low_cardinality_filter
        low_cardinality_columns [OF assms] dedupe_distinct)
qed

lemma is_number_not_object_category_bool: "is_number s \<Longrightarrow> \<not> is_object_category_bool s"
  by (cases s) simp_all

text \<open>
  Claim C3. In a table with unique column labels, a column is in the numeric list iff its
  dtype is numeric, and in the categorical list iff its dtype is object, category or bool,
  or it is numeric with at most \<open>cat_threshold\<close> distinct non-null values. A numeric column
  with exactly \<open>cat_threshold\<close> distinct non-null values is categorical, one with
  \<open>cat_threshold + 1\<close> is not.
\<close>

theorem infer_column_types_roles:
  assumes "distinct (columns df)" and "(c, s) \<in> set df"
  shows "(c \<in> set (fst (infer_column_types df cat_threshold)) \<longleftrightarrow> is_number s) \<and>
         (c \<in> set (snd (infer_column_types df cat_threshold)) \<longleftrightarrow>
            is_object_category_bool s \<or> (is_number s \<and> int (nunique s) \<le> cat_threshold)) \<and>
         (is_number s \<and> int (nunique s) = cat_threshold \<longrightarrow>
            c \<in> set (snd (infer_column_types df cat_threshold))) \<and>
         (is_number s \<and> int (nunique s) = cat_threshold + 1 \<longrightarrow>
            c \<notin> set (snd (infer_column_types df cat_threshold)))"
proof -
  from assms(1) have d: "distinct (map fst df)" by (simp add: columns_def)
  have num: "c \<in> set (fst (infer_column_types df cat_threshold)) \<longleftrightarrow> is_number s"
    by (simp add: infer_column_types_closed_form [OF d] columns_select_mem [OF d assms(2)])
  have cat: "c \<in> set (snd (infer_column_types df cat_threshold)) \<longleftrightarrow>
               is_object_category_bool s \<or> (is_number s \<and> int (nunique s) \<le> cat_threshold)"
    by (simp add: infer_column_types_closed_form [OF d] columns_select_mem [OF d assms(2)])
  from cat have at: "is_number s \<and> int (nunique s) = cat_threshold \<longrightarrow>
      c \<in> set (snd (infer_column_types df cat_threshold))"
    by simp
  from cat have above: "is_number s \<and> int (nunique s) = cat_threshold + 1 \<longrightarrow>
      c \<notin> set (snd (infer_column_types df cat_threshold))"
    by (auto dest: is_number_not_object_category_bool)
  from num cat at above show ?thesis by blast
qed

theorem infer_column_types_roles_witness:
  "distinct (columns [(''a'', Float64 [Some 1, NaN, Some 2, Some 1]), (''b'', Object [Text ''x'', NoneValue, Text ''y'', Text ''x''])]) \<and>
   ''a'' \<in> set (fst (infer_column_types
      [(''a'', Float64 [Some 1, NaN, Some 2, Some 1]), (''b'', Object [Text ''x'', NoneValue, Text ''y'', Text ''x''])] 2)) \<and>
   ''a'' \<in> set (snd (infer_column_types
      [(''a'', Float64 [Some 1, NaN, Some 2, Some 1]), (''b'', Object [Text ''x'', NoneValue, Text ''y'', Text ''x''])] 2)) \<and>
   ''a'' \<notin> set (snd (infer_column_types
      [(''a'', Float64 [Some 1, NaN, Some 2, Some 1]), (''b'', Object [Text ''x'', NoneValue, Text ''y'', Text ''x''])] 1))"
  using infer_column_types_roles
      [of "[(''a'', Float64 [Some 1, NaN, Some 2, Some 1]), (''b'', Object [Text ''x'', NoneValue, Text ''y'', Text ''x''])]"
          "''a''" "Float64 [Some 1, NaN, Some 2, Some 1]" 2]
    infer_column_types_roles
      [of "[(''a'', Float64 [Some 1, NaN, Some 2, Some 1]), (''b'', Object [Text ''x'', NoneValue, Text ''y'', Text ''x''])]"
          "''a''" "Float64 [Some 1, NaN, Some 2, Some 1]" 1]
  by (simp add: columns_def)

text \<open>
  Claim C4, as stated: both role lists are in table order (a subsequence of the table's
  column labels) and free of duplicates. The categorical list is not in table order: the
  low-cardinality numeric columns are appended after the object, category and bool columns.
\<close>

theorem infer_column_types_order_counterexample:
  "\<not> subseq (snd (infer_column_types
        [(''n'', Int64 [1, 2]), (''s'', Object [Text ''a'', Text ''b''])] 20))
      (columns [(''n'', Int64 [1, 2]), (''s'', Object [Text ''a'', Text ''b''])])"
  by (simp add: infer_column_types_def Let_def columns_def select_dtypes_def
      low_cardinality_def getitem_def dedupe_def)

text \<open>
  Claim C4, amended. The categorical list never holds a duplicate. In a table with unique
  column labels the numeric list is the numeric columns in table order, without
  duplicates, and the categorical list is the object, category and bool columns in table
  order followed by the numeric columns with at most \<open>cat_threshold\<close> distinct non-null
  values in table order.
\<close>

theorem infer_column_types_order:
  "distinct (snd (infer_column_types df cat_threshold)) \<and>
   (distinct (columns df) \<longrightarrow>
      fst (infer_column_types df cat_threshold) = map fst (filter (\<lambda>(c, s). is_number s) df) \<and>
      subseq (fst (infer_column_types df cat_threshold)) (columns df) \<and>
      distinct (fst (infer_column_types df cat_threshold)) \<and>
      snd (infer_column_types df cat_threshold) =
        map fst (filter (\<lambda>(c, s). is_object_category_bool s) df) @
        map fst (filter (\<lambda>(c, s). is_number s \<and> int (nunique s) \<le> cat_threshold) df))"
proof -
  have "distinct (snd (infer_column_types df cat_threshold))"
    by (simp add: infer_column_types_def Let_def distinct_dedupe)
  moreover have "fst (infer_column_types df cat_threshold) = columns (select_dtypes is_number df)"
    by (simp add: infer_column_types_def Let_def)
  moreover have "subseq (columns (select_dtypes is_number df)) (columns df)"
    by (rule subseq_columns_select)
  moreover have "distinct (columns (select_dtypes is_number df))" if "distinct (columns df)"
    using that distinct_columns_select [of df is_number] by (simp add: columns_def)
  moreover have "snd (infer_column_types df cat_threshold) =
        columns (select_dtypes is_object_category_bool df) @
        columns (select_dtypes (\<lambda>s. is_number s \<and> int (nunique s) \<le> cat_threshold) df)"
    if "distinct (columns df)"
    using that by (simp add: columns_def infer_column_types_closed_form)
  ultimately show ?thesis by (simp add: columns_def select_dtypes_def)
qed

theorem infer_column_types_order_witness:
  "distinct (columns [(''n'', Int64 [1, 2]), (''s'', Object [Text ''a'', Text ''b''])]) \<and>
   infer_column_types [(''n'', Int64 [1, 2]), (''s'', Object [Text ''a'', Text ''b''])] 20
     = ([''n''], [''s'', ''n''])"
  using infer_column_types_order
      [of "[(''n'', Int64 [1, 2]), (''s'', Object [Text ''a'', Text ''b''])]" 20]
  by (simp add: columns_def prod_eq_iff)

section \<open>Properties of the selector options\<close>

lemma first_or_none_options_for:
  "first_or_none (options_for cols) = (case cols of [] \<Rightarrow> None | c # _ \<Rightarrow> Some c)"
  by (cases cols) (simp_all add: first_or_none_def options_for_def)

lemma map_opt_value_options_for: "map opt_value (options_for cols) = cols"
  by (induction cols) (simp_all add: options_for_def)

lemma first_or_none_hd:
  "first_or_none opts = (case map opt_value opts of [] \<Rightarrow> None | c # _ \<Rightarrow> Some c)"
  by (cases opts) (simp_all add: first_or_none_def)

lemma update_column_options_eligible:
  "update_column_options df plot_type =
     (let numeric = fst (infer_column_types df 20);
          categorical = snd (infer_column_types df 20);
          x_cols = (if plot_type = ''scatter'' then numeric
                    else if plot_type = ''box'' \<or> plot_type = ''violin'' \<or> plot_type = ''bar''
                    then categorical
                    else if plot_type = ''hist'' then numeric @ categorical
                    else columns df);
          y_cols = (if plot_type = ''scatter'' \<or> plot_type = ''box'' \<or> plot_type = ''violin''
                       \<or> plot_type = ''bar'' then numeric
                    else if plot_type = ''hist'' then []
                    else columns df);
          size_cols = (if plot_type = ''scatter'' then numeric
                       else if plot_type = ''box'' \<or> plot_type = ''violin'' \<or> plot_type = ''bar''
                               \<or> plot_type = ''hist'' then []
                       else columns df)
      in \<lparr>x_options = options_for x_cols, y_options = options_for y_cols,
          color_options = options_for (columns df), size_options = options_for size_cols,
          x_value = (case x_cols of [] \<Rightarrow> None | c # _ \<Rightarrow> Some c),
          y_value = (case y_cols of [] \<Rightarrow> None | c # _ \<Rightarrow> Some c),
          color_value = None, size_value = None\<rparr>)"
proof -
  have e: "options_for [] = []" "first_or_none [] = None"
    by (simp_all add: options_for_def first_or_none_def)
  show ?thesis
    by (simp add: update_column_options_def Let_def first_or_none_options_for e split: prod.splits)
qed

lemma eda_update_plot_options_eq: "eda_update_plot_options df plot_type = update_column_options df plot_type"
  by (simp add: eda_update_plot_options_def update_column_options_def)

text \<open>
  Claim C7. Both callbacks take the table and the plot type only, so no earlier selection
  reaches the result. For every table and plot type the option lists are the eligible
  columns of that plot type (scatter: numeric for x, y and size; box, violin and bar:
  categorical for x, numeric for y; hist: numeric then categorical for x, none for y; any
  other plot type: all columns), the color options are all columns, the x and y values are
  the first entry of their option lists, or none when the list is empty, and the color and
  size values are unset.
\<close>

theorem default_selection_reset:
  "(\<forall>r \<in> {update_column_options df plot_type, eda_update_plot_options df plot_type}.
      x_value r = (case map opt_value (x_options r) of [] \<Rightarrow> None | c # _ \<Rightarrow> Some c) \<and>
      y_value r = (case map opt_value (y_options r) of [] \<Rightarrow> None | c # _ \<Rightarrow> Some c) \<and>
      color_value r = None \<and> size_value r = None \<and>
      map opt_value (color_options r) = columns df \<and>
      (plot_type = ''scatter'' \<longrightarrow>
         map opt_value (x_options r) = fst (infer_column_types df 20) \<and>
         map opt_value (y_options r) = fst (infer_column_types df 20) \<and>
         map opt_value (size_options r) = fst (infer_column_types df 20)) \<and>
      (plot_type = ''box'' \<or> plot_type = ''violin'' \<or> plot_type = ''bar'' \<longrightarrow>
         map opt_value (x_options r) = snd (infer_column_types df 20) \<and>
         map opt_value (y_options r) = fst (infer_column_types df 20) \<and>
         size_options r = []) \<and>
      (plot_type = ''hist'' \<longrightarrow>
         map opt_value (x_options r) = fst (infer_column_types df 20) @ snd (infer_column_types df 20) \<and>
         y_options r = [] \<and> size_options r = []) \<and>
      (plot_type \<notin> {''scatter'', ''box'', ''violin'', ''bar'', ''hist''} \<longrightarrow>
         map opt_value (x_options r) = columns df \<and>
         map opt_value (y_options r) = columns df \<and>
         map opt_value (size_options r) = columns df))"
  by (simp add: eda_update_plot_options_eq update_column_options_eligible Let_def
      map_opt_value_options_for) (simp add: options_for_def)

theorem default_selection_reset_witness:
  "infer_column_types [(''day'', Object [Text ''Sun'', Text ''Sat'']), (''size'', Int64 [2, 3])] 20
     = ([''size''], [''day'', ''size'']) \<and>
   x_value (update_column_options
     [(''day'', Object [Text ''Sun'', Text ''Sat'']), (''size'', Int64 [2, 3])] ''scatter'') = Some ''size'' \<and>
   x_value (eda_update_plot_options
     [(''day'', Object [Text ''Sun'', Text ''Sat'']), (''size'', Int64 [2, 3])] ''box'') = Some ''day'' \<and>
   y_value (eda_update_plot_options
     [(''day'', Object [Text ''Sun'', Text ''Sat'']), (''size'', Int64 [2, 3])] ''box'') = Some ''size'' \<and>
   y_value (update_column_options
     [(''day'', Object [Text ''Sun'', Text ''Sat'']), (''size'', Int64 [2, 3])] ''hist'') = None \<and>
   color_value (update_column_options
     [(''day'', Object [Text ''Sun'', Text ''Sat'']), (''size'', Int64 [2, 3])] ''scatter'') = None"
proof -
  let ?df = "[(''day'', Object [Text ''Sun'', Text ''Sat'']), (''size'', Int64 [2, 3])]"
  have ict: "infer_column_types ?df 20 = ([''size''], [''day'', ''size''])"
    by (simp add: infer_column_types_def Let_def columns_def select_dtypes_def
        low_cardinality_def getitem_def dedupe_def)
  from default_selection_reset [of ?df "''scatter''"] ict
  have a: "x_value (update_column_options ?df ''scatter'') = Some ''size''"
    and d: "color_value (update_column_options ?df ''scatter'') = None"
    by simp_all
  from default_selection_reset [of ?df "''box''"] ict
  have b: "x_value (eda_update_plot_options ?df ''box'') = Some ''day''"
    and c: "y_value (eda_update_plot_options ?df ''box'') = Some ''size''"
    by simp_all
  from default_selection_reset [of ?df "''hist''"] ict
  have e: "y_value (update_column_options ?df ''hist'') = None"
    by simp
  from ict a b c d e show ?thesis by simp
qed

section \<open>Properties of the correlation matrix\<close>

lemma fold_row_update:
  "k \<le> length row \<Longrightarrow>
   fold (\<lambda>j r. r[j := f j]) [0..<k] row = map f [0..<k] @ drop k row"
proof (induction k)
  case 0
  show ?case by simp
next
  case (Suc k)
  then have "fold (\<lambda>j r. r[j := f j]) [0..<Suc k] row = (map f [0..<k] @ drop k row)[k := f k]"
    by simp
  also have "\<dots> = map f [0..<k] @ (drop k row)[0 := f k]"
    by (simp add: list_update_append)
  also have "(drop k row)[0 := f k] = f k # drop (Suc k) row"
    using Suc.prems by (simp add: Cons_nth_drop_Suc [symmetric])
  finally show ?case by simp
qed

lemma fold_set_cell:
  "i < length m \<Longrightarrow>
   fold (\<lambda>j m. set_cell m i j (f j)) js m = m[i := fold (\<lambda>j r. r[j := f j]) js (m ! i)]"
  by (induction js arbitrary: m) (simp_all add: set_cell_def)

lemma fold_rows_update:
  "k \<le> length m \<Longrightarrow>
   fold (\<lambda>i m. m[i := g i (m ! i)]) [0..<k] m = map (\<lambda>i. g i (m ! i)) [0..<k] @ drop k m"
proof (induction k)
  case 0
  show ?case by simp
next
  case (Suc k)
  then have "fold (\<lambda>i m. m[i := g i (m ! i)]) [0..<Suc k] m
      = (map (\<lambda>i. g i (m ! i)) [0..<k] @ drop k m)[k := g k ((map (\<lambda>i. g i (m ! i)) [0..<k] @ drop k m) ! k)]"
    by simp
  also have "(map (\<lambda>i. g i (m ! i)) [0..<k] @ drop k m) ! k = m ! k"
    using Suc.prems by (simp add: nth_append)
  also have "(map (\<lambda>i. g i (m ! i)) [0..<k] @ drop k m)[k := g k (m ! k)]
      = map (\<lambda>i. g i (m ! i)) [0..<k] @ (drop k m)[0 := g k (m ! k)]"
    by (simp add: list_update_append)
  also have "(drop k m)[0 := g k (m ! k)] = g k (m ! k) # drop (Suc k) m"
    using Suc.prems by (simp add: Cons_nth_drop_Suc [symmetric])
  finally show ?case by simp
qed

lemma fill_matrix:
  "fold (\<lambda>i m. fold (\<lambda>j m. set_cell m i j (f i j)) [0..<n] m) [0..<n]
      (replicate n (replicate n z))
   = map (\<lambda>i. map (f i) [0..<n]) [0..<n]"
proof -
  have inner: "fold (\<lambda>j m. set_cell m i j (f i j)) [0..<n] m
                 = m[i := fold (\<lambda>j r. r[j := f i j]) [0..<n] (m ! i)]"
    if "i < length m" for i and m :: "float64 list list"
    using that by (rule fold_set_cell)
  have "fold (\<lambda>i m. fold (\<lambda>j m. set_cell m i j (f i j)) [0..<n] m) js m
          = fold (\<lambda>i m. m[i := fold (\<lambda>j r. r[j := f i j]) [0..<n] (m ! i)]) js m"
    if "\<forall>i \<in> set js. i < length m" for js and m :: "float64 list list"
    using that by (induction js arbitrary: m) (simp_all add: inner)
  then have "fold (\<lambda>i m. fold (\<lambda>j m. set_cell m i j (f i j)) [0..<n] m) [0..<n]
      (replicate n (replicate n z))
    = fold (\<lambda>i m. m[i := fold (\<lambda>j r. r[j := f i j]) [0..<n] (m ! i)]) [0..<n]
      (replicate n (replicate n z))"
    by simp
  also have "\<dots> = map (\<lambda>i. fold (\<lambda>j r. r[j := f i j]) [0..<n] (replicate n (replicate n z) ! i)) [0..<n]"
    using fold_rows_update [of n "replicate n (replicate n z)"
        "\<lambda>i r. fold (\<lambda>j r. r[j := f i j]) [0..<n] r"]
    by simp
  also have "\<dots> = map (\<lambda>i. map (f i) [0..<n]) [0..<n]"
    by (rule map_cong) (simp_all add: fold_row_update)
  finally show ?thesis .
qed

lemma create_correlation_matrix_cells:
  "create_correlation_matrix corrcoef spearmanr df method =
     (if length (select_dtypes is_number df) < 2 then Inr None
      else Inr (Some (map (\<lambda>i. map (correlation_cell corrcoef spearmanr (select_dtypes is_number df) method i)
                 [0..<length (select_dtypes is_number df)]) [0..<length (select_dtypes is_number df)])))"
  by (simp add: create_correlation_matrix_def Let_def fill_matrix)

lemma length_notna: "length (notna s) = len s"
  by (cases s) simp_all

lemma length_keep: "length flags \<le> length xs \<Longrightarrow> length (keep xs flags) = length (filter id flags)"
proof (induction flags arbitrary: xs)
  case Nil
  show ?case by (simp add: keep_def)
next
  case (Cons b flags)
  then obtain x xs' where xs: "xs = x # xs'" by (cases xs) auto
  with Cons.prems have "length flags \<le> length xs'" by simp
  from Cons.IH [OF this] xs show ?case by (simp add: keep_def)
qed

lemma len_boolean_index:
  "length flags \<le> len s \<Longrightarrow> len (boolean_index s flags) = length (filter id flags)"
  by (cases s) (simp_all add: length_keep)

lemma valid_mask_nth:
  "k < min (len a) (len b) \<Longrightarrow> valid_mask a b ! k = (notna a ! k \<and> notna b ! k)"
  by (simp add: valid_mask_def length_notna)

lemma length_valid_mask: "length (valid_mask a b) = min (len a) (len b)"
  by (simp add: valid_mask_def length_notna)

lemma surviving_rows:
  "length (filter id (valid_mask a b)) = card {k. k < min (len a) (len b) \<and> notna a ! k \<and> notna b ! k}"
proof -
  have "length (filter id (valid_mask a b))
      = card {k. k < length (valid_mask a b) \<and> id (valid_mask a b ! k)}"
    by (rule length_filter_conv_card)
  also have "{k. k < length (valid_mask a b) \<and> id (valid_mask a b ! k)}
      = {k. k < min (len a) (len b) \<and> notna a ! k \<and> notna b ! k}"
    using valid_mask_nth [of _ a b] by (auto simp: length_valid_mask)
  finally show ?thesis .
qed

lemma len_valid_data:
  "len (boolean_index a (valid_mask a b))
     = card {k. k < min (len a) (len b) \<and> notna a ! k \<and> notna b ! k}"
  by (simp add: len_boolean_index length_valid_mask surviving_rows)

lemma map2_commute: "map2 f xs ys = map2 (\<lambda>b a. f a b) ys xs"
proof (induction xs arbitrary: ys)
  case Nil
  show ?case by simp
next
  case (Cons x xs)
  then show ?case by (cases ys) simp_all
qed

lemma valid_mask_commute: "valid_mask a b = valid_mask b a"
  unfolding valid_mask_def by (subst map2_commute) (simp add: conj_commute)

lemma correlation_cell_swap:
  "correlation_cell corrcoef spearmanr numeric_df method i j =
   correlation_cell (\<lambda>a b. corrcoef b a) (\<lambda>a b. spearmanr b a) numeric_df method j i"
proof -
  have "len (boolean_index (snd (numeric_df ! i)) (valid_mask (snd (numeric_df ! j)) (snd (numeric_df ! i))))
      = len (boolean_index (snd (numeric_df ! j)) (valid_mask (snd (numeric_df ! j)) (snd (numeric_df ! i))))"
    by (simp add: len_boolean_index length_valid_mask)
  then show ?thesis
  by (auto simp add: correlation_cell_def Let_def valid_mask_commute [of "snd (numeric_df ! i)"])
qed

lemma create_correlation_matrix_nth:
  assumes "create_correlation_matrix corrcoef spearmanr df method = Inr (Some m)"
    and "i < length (select_dtypes is_number df)" and "j < length (select_dtypes is_number df)"
  shows "m ! i ! j = correlation_cell corrcoef spearmanr (select_dtypes is_number df) method i j"
  using assms by (auto simp: create_correlation_matrix_cells split: if_splits)

lemma create_correlation_matrix_symmetric:
  assumes "\<And>a b. corrcoef a b = corrcoef b a" and "\<And>a b. spearmanr a b = spearmanr b a"
    and "create_correlation_matrix corrcoef spearmanr df method = Inr (Some m)"
    and "i < length (select_dtypes is_number df)" and "j < length (select_dtypes is_number df)"
  shows "m ! i ! j = m ! j ! i"
proof -
  have "m ! i ! j = correlation_cell corrcoef spearmanr (select_dtypes is_number df) method i j"
    using assms(3-5) by (rule create_correlation_matrix_nth)
  also have "\<dots> = correlation_cell (\<lambda>a b. corrcoef b a) (\<lambda>a b. spearmanr b a) (select_dtypes is_number df) method j i"
    by (rule correlation_cell_swap)
  also have "\<dots> = correlation_cell corrcoef spearmanr (select_dtypes is_number df) method j i"
    using assms(1,2) by simp
  also have "\<dots> = m ! j ! i"
    using assms(3-5) by (simp add: create_correlation_matrix_nth)
  finally show ?thesis .
qed

text \<open>
  Claim C1, amended. For \<open>i \<noteq> j\<close> the cells \<open>(i, j)\<close> and \<open>(j, i)\<close> are computed from the
  same rows, those where both columns are non-null (the two pairwise masks are equal), by
  the same library routine with its two arguments swapped: each cell is 0 when fewer than
  two rows survive or the routine returns NaN, and the routine's value otherwise. So the
  two cells are equal whenever the routine returns the same float for both orders of these
  two arrays.
\<close>

theorem correlation_cells_swapped:
  assumes "create_correlation_matrix corrcoef spearmanr df method = Inr (Some m)"
    and "i < length (select_dtypes is_number df)" and "j < length (select_dtypes is_number df)"
    and "i \<noteq> j"
  shows "let col_i = snd (select_dtypes is_number df ! i);
             col_j = snd (select_dtypes is_number df ! j);
             a = boolean_index col_i (valid_mask col_i col_j);
             b = boolean_index col_j (valid_mask col_i col_j);
             routine = (if method = ''spearman'' then spearmanr else corrcoef)
         in valid_mask col_i col_j = valid_mask col_j col_i \<and>
            len a = len b \<and>
            m ! i ! j = (if len a > 1 then (if routine a b \<noteq> NaN then routine a b else Some 0)
                         else Some 0) \<and>
            m ! j ! i = (if len a > 1 then (if routine b a \<noteq> NaN then routine b a else Some 0)
                         else Some 0) \<and>
            (routine a b = routine b a \<longrightarrow> m ! i ! j = m ! j ! i)"
proof -
  define col_i where "col_i = snd (select_dtypes is_number df ! i)"
  define col_j where "col_j = snd (select_dtypes is_number df ! j)"
  have sw: "valid_mask col_j col_i = valid_mask col_i col_j" by (rule valid_mask_commute)
  have ln: "len (boolean_index col_i (valid_mask col_i col_j))
          = len (boolean_index col_j (valid_mask col_i col_j))"
    by (simp add: len_boolean_index length_valid_mask)
  have ij: "m ! i ! j = correlation_cell corrcoef spearmanr (select_dtypes is_number df) method i j"
    using assms(1-3) by (rule create_correlation_matrix_nth)
  have ji: "m ! j ! i = correlation_cell corrcoef spearmanr (select_dtypes is_number df) method j i"
    using assms(1,3,2) by (rule create_correlation_matrix_nth)
  show ?thesis
    unfolding ij ji using assms(4) ln sw
    by (auto simp add: correlation_cell_def Let_def col_i_def col_j_def)
qed

text \<open>
  Claim C1, as stated: the matrix is exactly symmetric. \<open>np.corrcoef\<close> divides the
  covariance by the standard deviation of its first argument and then by that of its
  second; for the columns \<open>[0, 0, 3]\<close> and \<open>[0, 5, 7]\<close> the covariance is 4.5 and the
  variances are 3 and 13, all exact, and the two orders of division give the doubles
  \<open>6490377844273043 / 2 ^ 53\<close> (0.7205766921228921) and \<open>6490377844273044 / 2 ^ 53\<close>
  (0.7205766921228922), as \<open>corrcoef_division_order\<close> below computes. With these return
  values of the routine the two cells differ.
\<close>

theorem correlation_symmetry_counterexample:
  "create_correlation_matrix
     (\<lambda>u v. if u = Int64 [0, 0, 3] \<and> v = Int64 [0, 5, 7] then Some (6490377844273043 / 2 ^ 53)
            else if u = Int64 [0, 5, 7] \<and> v = Int64 [0, 0, 3] then Some (6490377844273044 / 2 ^ 53)
            else NaN)
     (\<lambda>u v. NaN)
     [(''a'', Int64 [0, 0, 3]), (''b'', Int64 [0, 5, 7])] ''pearson''
   = Inr (Some [[Some 1, Some (6490377844273043 / 2 ^ 53)],
                [Some (6490377844273044 / 2 ^ 53), Some 1]]) \<and>
   (6490377844273043 / 2 ^ 53 :: real) \<noteq> 6490377844273044 / 2 ^ 53"
proof
  show "create_correlation_matrix
     (\<lambda>u v. if u = Int64 [0, 0, 3] \<and> v = Int64 [0, 5, 7] then Some (6490377844273043 / 2 ^ 53)
            else if u = Int64 [0, 5, 7] \<and> v = Int64 [0, 0, 3] then Some (6490377844273044 / 2 ^ 53)
            else NaN)
     (\<lambda>u v. NaN)
     [(''a'', Int64 [0, 0, 3]), (''b'', Int64 [0, 5, 7])] ''pearson''
   = Inr (Some [[Some 1, Some (6490377844273043 / 2 ^ 53)],
                [Some (6490377844273044 / 2 ^ 53), Some 1]])"
  proof -
    define v1 :: real where "v1 = 6490377844273043 / 2 ^ 53"
    define v2 :: real where "v2 = 6490377844273044 / 2 ^ 53"
    define C where "C = (\<lambda>u v. if u = Int64 [0, 0, 3] \<and> v = Int64 [0, 5, 7] then Some v1
            else if u = Int64 [0, 5, 7] \<and> v = Int64 [0, 0, 3] then Some v2
            else NaN)"
    have c1: "C (Int64 [0, 0, 3]) (Int64 [0, 5, 7]) = Some v1"
      and c2: "C (Int64 [0, 5, 7]) (Int64 [0, 0, 3]) = Some v2"
      by (simp_all add: C_def)
    have "create_correlation_matrix C (\<lambda>u v. NaN)
            [(''a'', Int64 [0, 0, 3]), (''b'', Int64 [0, 5, 7])] ''pearson''
          = Inr (Some [[Some 1, Some v1], [Some v2, Some 1]])"
      by (simp add: create_correlation_matrix_cells select_dtypes_def correlation_cell_def Let_def
          valid_mask_def keep_def upt_rec c1 c2)
    then show ?thesis unfolding C_def v1_def v2_def .
  qed
  show "(6490377844273043 / 2 ^ 53 :: real) \<noteq> 6490377844273044 / 2 ^ 53"
    by simp
qed

theorem correlation_cells_swapped_witness:
  "create_correlation_matrix (\<lambda>u v. NaN) (\<lambda>u v. NaN)
     [(''a'', Float64 [Some 1, NaN, Some 3]), (''b'', Float64 [Some 2, Some 2, Some 2])] ''spearman''
     = Inr (Some [[Some 1, Some 0], [Some 0, Some 1]]) \<and>
   [[Some 1, Some 0], [Some 0, Some (1::real)]] ! 0 ! 1
     = [[Some 1, Some 0], [Some 0, Some (1::real)]] ! 1 ! 0"
proof -
  let ?df = "[(''a'', Float64 [Some 1, NaN, Some 3]), (''b'', Float64 [Some 2, Some 2, Some 2])]"
  let ?m = "[[Some 1, Some 0], [Some 0, Some (1::real)]]"
  have run: "create_correlation_matrix (\<lambda>u v. NaN) (\<lambda>u v. NaN) ?df ''spearman'' = Inr (Some ?m)"
    by (simp add: create_correlation_matrix_cells select_dtypes_def correlation_cell_def Let_def
        valid_mask_def keep_def upt_rec)
  have i: "0 < length (select_dtypes is_number ?df)" and j: "1 < length (select_dtypes is_number ?df)"
    by (simp_all add: select_dtypes_def)
  have ne: "(0::nat) \<noteq> 1" by simp
  from correlation_cells_swapped [OF run i j ne] have "?m ! 0 ! 1 = ?m ! 1 ! 0"
    by (simp add: Let_def)
  with run show ?thesis by blast
qed

text \<open>
  Claim C2, as stated: with fewer than two numeric columns the call fails with
  \<open>InsufficientDataError\<close>. The guard returns Python's \<open>None\<close> instead; nothing is
  raised. The library routines are not reached, so any stand-in serves.
\<close>

theorem correlation_too_few_columns_counterexample:
  "length (select_dtypes is_number [(''a'', Float64 [Some 1, Some 2]), (''s'', Object [Text ''u'', Text ''v''])]) < 2 \<and>
   create_correlation_matrix (\<lambda>a b. NaN) (\<lambda>a b. NaN)
     [(''a'', Float64 [Some 1, Some 2]), (''s'', Object [Text ''u'', Text ''v''])] ''pearson'' = Inr None \<and>
   create_correlation_matrix (\<lambda>a b. NaN) (\<lambda>a b. NaN)
     [(''a'', Float64 [Some 1, Some 2]), (''s'', Object [Text ''u'', Text ''v''])] ''pearson'' \<noteq> Inl InsufficientDataError"
  by (simp add: create_correlation_matrix_def select_dtypes_def)

text \<open>
  Claim C2, amended. \<open>create_correlation_matrix\<close> never raises: with fewer than two
  numeric columns it returns \<open>None\<close>, otherwise a square matrix over the numeric columns.
\<close>

theorem correlation_too_few_columns:
  "create_correlation_matrix corrcoef spearmanr df method \<noteq> Inl e \<and>
   (length (select_dtypes is_number df) < 2 \<longrightarrow>
      create_correlation_matrix corrcoef spearmanr df method = Inr None) \<and>
   (2 \<le> length (select_dtypes is_number df) \<longrightarrow>
      (\<exists>m. create_correlation_matrix corrcoef spearmanr df method = Inr (Some m) \<and>
           length m = length (select_dtypes is_number df) \<and>
           (\<forall>row \<in> set m. length row = length (select_dtypes is_number df))))"
  by (auto simp add: create_correlation_matrix_cells)

theorem correlation_too_few_columns_witness:
  "length (select_dtypes is_number [(''s'', Object [Text ''u''])]) < 2 \<and>
   create_correlation_matrix (\<lambda>a b. NaN) (\<lambda>a b. NaN) [(''s'', Object [Text ''u''])] ''spearman'' = Inr None \<and>
   2 \<le> length (select_dtypes is_number [(''a'', Int64 [1, 2]), (''b'', Int64 [3, 5])]) \<and>
   create_correlation_matrix (\<lambda>a b. Some 1) (\<lambda>a b. Some 1) [(''a'', Int64 [1, 2]), (''b'', Int64 [3, 5])] ''pearson'' \<noteq> Inr None"
  using correlation_too_few_columns [of "\<lambda>a b. NaN" "\<lambda>a b. NaN" "[(''s'', Object [Text ''u''])]" "''spearman''"]
    correlation_too_few_columns [of "\<lambda>a b. Some 1" "\<lambda>a b. Some 1" "[(''a'', Int64 [1, 2]), (''b'', Int64 [3, 5])]" "''pearson''"]
  by (auto simp add: select_dtypes_def)

text \<open>
  Claim C5. Off the diagonal, a cell whose two columns share fewer than two rows where
  both are non-null is exactly 0, a cell whose statistic comes out NaN is exactly 0, and
  no cell is NaN, whatever the library routines return.
\<close>

theorem correlation_degenerate_cells:
  assumes "create_correlation_matrix corrcoef spearmanr df method = Inr (Some m)"
    and "i < length (select_dtypes is_number df)" and "j < length (select_dtypes is_number df)"
    and "i \<noteq> j"
  shows "(card {k. k < min (len (snd (select_dtypes is_number df ! i)))
                         (len (snd (select_dtypes is_number df ! j))) \<and>
                   notna (snd (select_dtypes is_number df ! i)) ! k \<and>
                   notna (snd (select_dtypes is_number df ! j)) ! k} < 2
            \<longrightarrow> m ! i ! j = Some 0) \<and>
         ((if method = ''spearman''
           then spearmanr
                  (boolean_index (snd (select_dtypes is_number df ! i))
                     (valid_mask (snd (select_dtypes is_number df ! i)) (snd (select_dtypes is_number df ! j))))
                  (boolean_index (snd (select_dtypes is_number df ! j))
                     (valid_mask (snd (select_dtypes is_number df ! i)) (snd (select_dtypes is_number df ! j))))
           else corrcoef
                  (boolean_index (snd (select_dtypes is_number df ! i))
                     (valid_mask (snd (select_dtypes is_number df ! i)) (snd (select_dtypes is_number df ! j))))
                  (boolean_index (snd (select_dtypes is_number df ! j))
                     (valid_mask (snd (select_dtypes is_number df ! i)) (snd (select_dtypes is_number df ! j))))) = NaN
            \<longrightarrow> m ! i ! j = Some 0) \<and>
         m ! i ! j \<noteq> NaN"
proof -
  have cell: "m ! i ! j = correlation_cell corrcoef spearmanr (select_dtypes is_number df) method i j"
    using assms(1-3) by (rule create_correlation_matrix_nth)
  show ?thesis
    unfolding cell using assms(4)
    by (auto simp add: correlation_cell_def Let_def len_valid_data)
qed

theorem correlation_degenerate_cells_witness:
  "create_correlation_matrix (\<lambda>a b. NaN) (\<lambda>a b. NaN)
     [(''a'', Float64 [Some 1, NaN, Some 3]), (''s'', Object [Text ''u'', NoneValue, NaNValue]),
      (''b'', Float64 [NaN, Some 2, Some 5]), (''c'', Int64 [7, 7, 7])] ''pearson''
     = Inr (Some [[Some 1, Some 0, Some 0], [Some 0, Some 1, Some 0], [Some 0, Some 0, Some 1]]) \<and>
   [[Some 1, Some 0, Some 0], [Some 0, Some 1, Some 0], [Some 0, Some 0, Some (1::real)]] ! 0 ! 1 \<noteq> NaN"
proof -
  let ?df = "[(''a'', Float64 [Some 1, NaN, Some 3]), (''s'', Object [Text ''u'', NoneValue, NaNValue]),
      (''b'', Float64 [NaN, Some 2, Some 5]), (''c'', Int64 [7, 7, 7])]"
  let ?m = "[[Some 1, Some 0, Some 0], [Some 0, Some 1, Some 0], [Some 0, Some 0, Some (1::real)]]"
  have run: "create_correlation_matrix (\<lambda>a b. NaN) (\<lambda>a b. NaN) ?df ''pearson'' = Inr (Some ?m)"
    by (simp add: create_correlation_matrix_cells select_dtypes_def correlation_cell_def Let_def
        valid_mask_def keep_def upt_rec)
  have i: "0 < length (select_dtypes is_number ?df)" and j: "1 < length (select_dtypes is_number ?df)"
    by (simp_all add: select_dtypes_def)
  have ne: "(0::nat) \<noteq> 1" by simp
  from correlation_degenerate_cells [OF run i j ne] have "?m ! 0 ! 1 \<noteq> NaN" by blast
  with run show ?thesis by blast
qed

section \<open>Properties of the descriptive statistics\<close>

lemma dropna_all_null: "(\<forall>v \<in> set xs. v = None) \<Longrightarrow> dropna xs = []"
  by (induction xs) simp_all

text \<open>
  Claim C9. For a column whose values are all null, every field of the statistics record
  (mean, median, mode, std, min, max, q1, q3) is NaN; nothing is raised and nothing is 0.
\<close>

theorem compute_numeric_stats_all_null:
  assumes "\<forall>v \<in> set series. v = NaN"
  shows "compute_numeric_stats series =
           [(''mean'', NaN), (''median'', NaN), (''mode'', NaN), (''std'', NaN),
            (''min'', NaN), (''max'', NaN), (''q1'', NaN), (''q3'', NaN)]"
  using dropna_all_null [OF assms]
  by (simp add: compute_numeric_stats_def pd_mean_def pd_median_def pd_mode_def pd_std_def
      pd_min_def pd_max_def pd_quantile_def)

theorem compute_numeric_stats_all_null_witness:
  "set [NaN, NaN, NaN :: float64] = {NaN} \<and>
   compute_numeric_stats [NaN, NaN, NaN] =
           [(''mean'', NaN), (''median'', NaN), (''mode'', NaN), (''std'', NaN),
            (''min'', NaN), (''max'', NaN), (''q1'', NaN), (''q3'', NaN)]"
  using compute_numeric_stats_all_null [of "[NaN, NaN, NaN]"] by simp

lemma compute_numeric_stats_example:
  "compute_numeric_stats [Some 3, NaN, Some 1, Some 2] =
           [(''mean'', Some 2), (''median'', Some 2), (''mode'', Some 1), (''std'', Some 1),
            (''min'', Some 1), (''max'', Some 3), (''q1'', Some 1.5), (''q3'', Some 2.5)]"
  by (simp add: compute_numeric_stats_def pd_mean_def pd_median_def pd_mode_def pd_std_def
      pd_min_def pd_max_def pd_quantile_def Let_def power2_eq_square)

section \<open>Properties of the double arithmetic\<close>

lemma round_half_even_of_int [simp]: "round_half_even (of_int k) = k"
  by (simp add: round_half_even_def)

lemma round_half_even_zero [simp]: "round_half_even 0 = 0"
  by (simp add: round_half_even_def)

lemma round_half_even_bounds: "\<lfloor>t\<rfloor> \<le> round_half_even t" "round_half_even t \<le> \<lfloor>t\<rfloor> + 1"
  by (simp_all add: round_half_even_def Let_def)

lemma round_half_even_mono:
  assumes "s \<le> t"
  shows "round_half_even s \<le> round_half_even t"
proof (cases "\<lfloor>s\<rfloor> = \<lfloor>t\<rfloor>")
  case True
  with assms have "s - of_int \<lfloor>s\<rfloor> \<le> t - of_int \<lfloor>t\<rfloor>" by simp
  with True show ?thesis by (auto simp add: round_half_even_def Let_def)
next
  case False
  with assms have "\<lfloor>s\<rfloor> < \<lfloor>t\<rfloor>" by (simp add: floor_mono order.not_eq_order_implies_strict)
  then have "round_half_even s \<le> \<lfloor>t\<rfloor>" using round_half_even_bounds(2) [of s] by linarith
  with round_half_even_bounds(1) [of t] show ?thesis by linarith
qed

lemma round_half_even_minus: "round_half_even (- t) = - round_half_even t"
proof (cases "t \<in> \<int>")
  case True
  then obtain k where "t = of_int k" by (auto elim: Ints_cases)
  then have "- t = of_int (- k)" by simp
  then show ?thesis using \<open>t = of_int k\<close> by (metis round_half_even_of_int)
next
  case False
  from False have ne: "t \<noteq> of_int \<lfloor>t\<rfloor>" by (metis Ints_of_int)
  then have fl: "\<lfloor>- t\<rfloor> = - \<lfloor>t\<rfloor> - 1"
    by (simp add: floor_minus ceiling_altdef)
  show ?thesis
    unfolding round_half_even_def Let_def fl
    using ne by (auto simp add: algebra_simps)
qed

lemma bitlen_floor_bounds:
  fixes t :: real
  assumes "1 \<le> t"
  shows "2 powi (bitlen \<lfloor>t\<rfloor> - 1) \<le> t" and "t < 2 powi (bitlen \<lfloor>t\<rfloor>)"
proof -
  define b where "b = bitlen \<lfloor>t\<rfloor>"
  from assms have pos: "0 < \<lfloor>t\<rfloor>" by (simp add: zero_less_floor)
  from bitlen_bounds [OF pos] have lo: "2 ^ nat (b - 1) \<le> \<lfloor>t\<rfloor>" and hi: "\<lfloor>t\<rfloor> < 2 ^ nat b"
    by (simp_all add: b_def)
  from pos have b1: "1 \<le> b" by (simp add: b_def bitlen_alt_def)
  have "(2::real) ^ nat (b - 1) \<le> of_int \<lfloor>t\<rfloor>"
    using lo by (metis of_int_le_iff of_int_numeral of_int_power)
  then have "(2::real) ^ nat (b - 1) \<le> t" by linarith
  moreover have "(2::real) ^ nat (b - 1) = 2 powi (b - 1)"
    using b1 by (simp add: power_int_def)
  ultimately show "2 powi (bitlen \<lfloor>t\<rfloor> - 1) \<le> t" by (simp add: b_def)
  have "\<lfloor>t\<rfloor> + 1 \<le> 2 ^ nat b" using hi by simp
  then have "of_int (\<lfloor>t\<rfloor> + 1) \<le> (2::real) ^ nat b"
    by (metis of_int_le_iff of_int_numeral of_int_power)
  then have "t < (2::real) ^ nat b" by linarith
  moreover have "(2::real) ^ nat b = 2 powi b"
    using b1 by (simp add: power_int_def)
  ultimately show "t < 2 powi (bitlen \<lfloor>t\<rfloor>)" by (simp add: b_def)
qed

lemma scaled_binade:
  fixes x :: real and k :: int
  assumes "2 powi (- k) \<le> \<bar>x\<bar>"
  shows "2 powi (bitlen \<lfloor>\<bar>x\<bar> * 2 powi k\<rfloor> - 1 - k) \<le> \<bar>x\<bar>"
    and "\<bar>x\<bar> < 2 powi (bitlen \<lfloor>\<bar>x\<bar> * 2 powi k\<rfloor> - k)"
proof -
  define t where "t = \<bar>x\<bar> * 2 powi k"
  have pk: "(0::real) < 2 powi k" by simp
  have "1 = (2::real) powi (- k) * 2 powi k" by (simp add: power_int_minus)
  also have "\<dots> \<le> t" unfolding t_def using assms pk by (intro mult_right_mono) simp_all
  finally have t1: "1 \<le> t" .
  have x: "t * 2 powi (- k) = \<bar>x\<bar>" by (simp add: t_def power_int_minus)
  have nn: "0 \<le> (2::real) powi (- k)" and ps: "0 < (2::real) powi (- k)"
    by (rule zero_le_power_int, simp) (rule zero_less_power_int, simp)
  have "2 powi (bitlen \<lfloor>t\<rfloor> - 1 - k) = 2 powi (bitlen \<lfloor>t\<rfloor> - 1) * (2::real) powi (- k)"
    using power_int_add [of "2::real" "bitlen \<lfloor>t\<rfloor> - 1" "- k"] by simp
  also have "\<dots> \<le> t * 2 powi (- k)"
    by (rule mult_right_mono [OF bitlen_floor_bounds(1) [OF t1] nn])
  finally have "2 powi (bitlen \<lfloor>t\<rfloor> - 1 - k) \<le> \<bar>x\<bar>" unfolding x .
  then show "2 powi (bitlen \<lfloor>\<bar>x\<bar> * 2 powi k\<rfloor> - 1 - k) \<le> \<bar>x\<bar>"
    unfolding t_def .
  have "t * 2 powi (- k) < 2 powi (bitlen \<lfloor>t\<rfloor>) * (2::real) powi (- k)"
    by (rule mult_strict_right_mono [OF bitlen_floor_bounds(2) [OF t1] ps])
  also have "\<dots> = 2 powi (bitlen \<lfloor>t\<rfloor> - k)"
    using power_int_add [of "2::real" "bitlen \<lfloor>t\<rfloor>" "- k"] by simp
  finally have "\<bar>x\<bar> < 2 powi (bitlen \<lfloor>t\<rfloor> - k)" unfolding x .
  then show "\<bar>x\<bar> < 2 powi (bitlen \<lfloor>\<bar>x\<bar> * 2 powi k\<rfloor> - k)"
    unfolding t_def .
qed

lemma ulp_exponent_binade:
  assumes "2 powi (- 1022) \<le> \<bar>x\<bar>"
  shows "2 powi (ulp_exponent x + 52) \<le> \<bar>x\<bar>" and "\<bar>x\<bar> < 2 powi (ulp_exponent x + 53)"
proof -
  have e: "ulp_exponent x = bitlen \<lfloor>\<bar>x\<bar> * 2 powi 1022\<rfloor> - 1075"
    using assms unfolding ulp_exponent_def by (simp only: not_less [symmetric] if_False)
  have a: "ulp_exponent x + 52 = bitlen \<lfloor>\<bar>x\<bar> * 2 powi 1022\<rfloor> - 1 - 1022"
    and b: "ulp_exponent x + 53 = bitlen \<lfloor>\<bar>x\<bar> * 2 powi 1022\<rfloor> - 1022"
    unfolding e by arith+
  show "2 powi (ulp_exponent x + 52) \<le> \<bar>x\<bar>"
    unfolding a using assms by (rule scaled_binade(1))
  show "\<bar>x\<bar> < 2 powi (ulp_exponent x + 53)"
    unfolding b using assms by (rule scaled_binade(2))
qed


lemma pow2_less_D: "(2::real) powi m < 2 powi n \<Longrightarrow> m < n"
  using power_int_increasing [of n m "2::real"] by (cases "m < n") auto

lemma ulp_exponent_ge: "- 1074 \<le> ulp_exponent x"
proof (cases "\<bar>x\<bar> < 2 powi (- 1022)")
  case True
  then show ?thesis by (simp only: ulp_exponent_def if_True)
next
  case False
  then have ge: "2 powi (- 1022) \<le> \<bar>x\<bar>" by simp
  from ulp_exponent_binade(2) [OF ge] ge have "(2::real) powi (- 1022) < 2 powi (ulp_exponent x + 53)"
    by (rule le_less_trans [rotated])
  then have "- 1022 < ulp_exponent x + 53" by (rule pow2_less_D)
  then show ?thesis by arith
qed

lemma ulp_exponent_upper: "\<bar>x\<bar> < 2 powi (ulp_exponent x + 53)"
proof (cases "\<bar>x\<bar> < 2 powi (- 1022)")
  case True
  then have e: "ulp_exponent x + 53 = - 1021" by (simp only: ulp_exponent_def if_True)
  have "(2::real) powi (- 1022) \<le> 2 powi (- 1021)" by (rule power_int_increasing) simp_all
  with True show ?thesis unfolding e by (rule less_le_trans)
next
  case False
  then show ?thesis using ulp_exponent_binade(2) by simp
qed

lemma ulp_exponent_lower: "- 1074 < ulp_exponent x \<Longrightarrow> 2 powi (ulp_exponent x + 52) \<le> \<bar>x\<bar>"
proof (cases "\<bar>x\<bar> < 2 powi (- 1022)")
  case True
  then have "ulp_exponent x = - 1074" by (simp only: ulp_exponent_def if_True)
  moreover assume "- 1074 < ulp_exponent x"
  ultimately show ?thesis by simp
next
  case False
  then show ?thesis using ulp_exponent_binade(1) by simp
qed

lemma ulp_exponent_mono:
  assumes "\<bar>x\<bar> \<le> \<bar>y\<bar>"
  shows "ulp_exponent x \<le> ulp_exponent y"
proof (cases "- 1074 < ulp_exponent x")
  case True
  from ulp_exponent_lower [OF True] assms have "2 powi (ulp_exponent x + 52) \<le> \<bar>y\<bar>" by simp
  also have "\<dots> < 2 powi (ulp_exponent y + 53)" by (rule ulp_exponent_upper)
  finally have "ulp_exponent x + 52 < ulp_exponent y + 53" by (rule pow2_less_D)
  then show ?thesis by arith
next
  case False
  with ulp_exponent_ge [of x] have "ulp_exponent x = - 1074" by arith
  with ulp_exponent_ge [of y] show ?thesis by simp
qed

lemma ulp_exponent_minus [simp]: "ulp_exponent (- x) = ulp_exponent x"
  by (simp add: ulp_exponent_def)

lemma rnd_minus: "rnd (- x) = - rnd x"
  by (simp add: rnd_def round_half_even_minus)

lemma rnd_zero [simp]: "rnd 0 = 0"
  by (simp add: rnd_def)

lemma rnd_nonneg: "0 \<le> x \<Longrightarrow> 0 \<le> rnd x"
proof -
  assume "0 \<le> x"
  then have "0 \<le> x / 2 powi ulp_exponent x" by simp
  then have "0 \<le> \<lfloor>x / 2 powi ulp_exponent x\<rfloor>" by simp
  with round_half_even_bounds(1) [of "x / 2 powi ulp_exponent x"]
  have "0 \<le> round_half_even (x / 2 powi ulp_exponent x)" by linarith
  then show ?thesis by (simp add: rnd_def)
qed

lemma pow2_int: "0 \<le> n \<Longrightarrow> (2::real) powi n = of_int (2 ^ nat n)"
  by (simp add: power_int_def)

lemma rnd_mono_nonneg:
  assumes "0 \<le> x" and "x \<le> y"
  shows "rnd x \<le> rnd y"
proof -
  define ex where "ex = ulp_exponent x"
  define ey where "ey = ulp_exponent y"
  from assms have "\<bar>x\<bar> \<le> \<bar>y\<bar>" by simp
  then have le: "ex \<le> ey" unfolding ex_def ey_def by (rule ulp_exponent_mono)
  have ux: "(0::real) < 2 powi ex" and uy: "(0::real) < 2 powi ey" by simp_all
  show ?thesis
  proof (cases "ex = ey")
    case True
    from assms(2) ux have "x / 2 powi ex \<le> y / 2 powi ex" by (simp add: divide_right_mono)
    then have "round_half_even (x / 2 powi ex) \<le> round_half_even (y / 2 powi ex)"
      by (rule round_half_even_mono)
    then have "of_int (round_half_even (x / 2 powi ex)) * 2 powi ex
                 \<le> of_int (round_half_even (y / 2 powi ex)) * (2::real) powi ex"
      using ux by (intro mult_right_mono) simp_all
    with True show ?thesis by (simp add: rnd_def ex_def ey_def)
  next
    case False
    with le have lt: "ex < ey" by simp
    with ulp_exponent_ge [of x] have "- 1074 < ulp_exponent y" by (simp add: ex_def ey_def)
    from ulp_exponent_lower [OF this] assms have By: "2 powi (ey + 52) \<le> y"
      by (simp add: ey_def)
    have "\<bar>x\<bar> < 2 powi (ex + 53)" unfolding ex_def by (rule ulp_exponent_upper)
    also have "(2::real) powi (ex + 53) \<le> 2 powi (ey + 52)"
      using lt by (intro power_int_increasing) simp_all
    finally have xB: "x < 2 powi (ey + 52)" using assms(1) by simp
    define N :: int where "N = 2 ^ nat (ey + 52 - ex)"
    have BN: "(2::real) powi (ey + 52) = of_int N * 2 powi ex"
    proof -
      have "(2::real) powi (ey + 52) = 2 powi (ey + 52 - ex) * 2 powi ex"
        using power_int_add [of "2::real" "ey + 52 - ex" ex] by simp
      also have "(2::real) powi (ey + 52 - ex) = of_int N"
        unfolding N_def using lt by (intro pow2_int) simp
      finally show ?thesis .
    qed
    have "x / 2 powi ex \<le> of_int N"
      using xB ux unfolding BN by (simp add: pos_divide_le_eq)
    then have "round_half_even (x / 2 powi ex) \<le> round_half_even (of_int N)"
      by (rule round_half_even_mono)
    then have "round_half_even (x / 2 powi ex) \<le> N" by simp
    then have "of_int (round_half_even (x / 2 powi ex)) * 2 powi ex \<le> of_int N * (2::real) powi ex"
      using ux by (intro mult_right_mono) simp_all
    then have low: "rnd x \<le> 2 powi (ey + 52)" by (simp add: rnd_def ex_def BN)
    define M :: int where "M = 2 ^ 52"
    have BM: "(2::real) powi (ey + 52) = of_int M * 2 powi ey"
    proof -
      have "(2::real) powi (ey + 52) = 2 powi 52 * 2 powi ey"
        using power_int_add [of "2::real" 52 ey] by (simp add: add.commute)
      also have "(2::real) powi 52 = of_int M"
        unfolding M_def using pow2_int [of 52] by simp
      finally show ?thesis .
    qed
    have "of_int M \<le> y / 2 powi ey"
      using By uy unfolding BM by (simp add: pos_le_divide_eq)
    then have "round_half_even (of_int M) \<le> round_half_even (y / 2 powi ey)"
      by (rule round_half_even_mono)
    then have "M \<le> round_half_even (y / 2 powi ey)" by simp
    then have "of_int M * (2::real) powi ey \<le> of_int (round_half_even (y / 2 powi ey)) * 2 powi ey"
      using uy by (intro mult_right_mono) simp_all
    then have "2 powi (ey + 52) \<le> of_int (round_half_even (y / 2 powi ey)) * (2::real) powi ey"
      unfolding BM .
    then have "2 powi (ey + 52) \<le> rnd y" by (simp only: rnd_def ey_def)
    with low show ?thesis by simp
  qed
qed

lemma rnd_mono:
  assumes "x \<le> y"
  shows "rnd x \<le> rnd y"
proof (cases "0 \<le> x")
  case True
  then show ?thesis using assms by (rule rnd_mono_nonneg)
next
  case neg: False
  show ?thesis
  proof (cases "0 \<le> y")
    case True
    from neg have "0 \<le> rnd (- x)" by (intro rnd_nonneg) simp
    then have "rnd x \<le> 0" by (simp add: rnd_minus)
    with rnd_nonneg [OF True] show ?thesis by simp
  next
    case False
    with assms have "0 \<le> - y" "- y \<le> - x" by simp_all
    then have "rnd (- y) \<le> rnd (- x)" by (rule rnd_mono_nonneg)
    then show ?thesis by (simp add: rnd_minus)
  qed
qed


lemma pow2_le_D: "(2::real) powi m \<le> 2 powi n \<Longrightarrow> m \<le> n"
  using power_int_strict_increasing [of n m "2::real"] by (cases "m \<le> n") auto

lemma ulp_exponent_eq:
  assumes "2 powi n \<le> \<bar>x\<bar>" and "\<bar>x\<bar> < 2 powi (n + 1)" and "- 1022 \<le> n"
  shows "ulp_exponent x = n - 52"
proof -
  have "(2::real) powi (- 1022) \<le> 2 powi n" using assms(3) by (intro power_int_increasing) simp_all
  with assms(1) have ge: "2 powi (- 1022) \<le> \<bar>x\<bar>" by simp
  from ulp_exponent_binade(1) [OF ge] assms(2)
  have "(2::real) powi (ulp_exponent x + 52) < 2 powi (n + 1)" by simp
  then have a: "ulp_exponent x + 52 < n + 1" by (rule pow2_less_D)
  from assms(1) ulp_exponent_binade(2) [OF ge]
  have "(2::real) powi n < 2 powi (ulp_exponent x + 53)" by simp
  then have "n < ulp_exponent x + 53" by (rule pow2_less_D)
  with a show ?thesis by arith
qed

lemma rnd_eval:
  assumes "2 powi n \<le> \<bar>x\<bar>" and "\<bar>x\<bar> < 2 powi (n + 1)" and "- 1022 \<le> n"
  shows "rnd x = of_int (round_half_even (x / 2 powi (n - 52))) * 2 powi (n - 52)"
  by (simp only: rnd_def ulp_exponent_eq [OF assms])

lemma rnd_representable:
  assumes "\<bar>m\<bar> < 2 ^ 53" and "- 1074 \<le> j"
  shows "rnd (of_int m * 2 powi j) = of_int m * 2 powi j"
proof -
  define x :: real where "x = of_int m * 2 powi j"
  define e where "e = ulp_exponent x"
  have "\<bar>x\<bar> = of_int \<bar>m\<bar> * 2 powi j" by (simp add: x_def abs_mult)
  also have "\<dots> < of_int (2 ^ 53) * 2 powi j"
    using assms(1) by (intro mult_strict_right_mono) simp_all
  also have "\<dots> = 2 powi (j + 53)"
    using power_int_add [of "2::real" j 53] by (simp add: mult.commute)
  finally have up: "\<bar>x\<bar> < 2 powi (j + 53)" .
  have ej: "e \<le> j"
  proof (cases "- 1074 < e")
    case True
    then have "2 powi (e + 52) \<le> \<bar>x\<bar>" unfolding e_def by (rule ulp_exponent_lower)
    with up have "(2::real) powi (e + 52) < 2 powi (j + 53)" by simp
    then have "e + 52 < j + 53" by (rule pow2_less_D)
    then show ?thesis by arith
  next
    case False
    with assms(2) show ?thesis by simp
  qed
  define k :: int where "k = m * 2 ^ nat (j - e)"
  have "(2::real) powi j = 2 powi (j - e) * 2 powi e"
    using power_int_add [of "2::real" "j - e" e] by simp
  also have "(2::real) powi (j - e) = of_int (2 ^ nat (j - e))"
    using ej by (intro pow2_int) simp
  finally have xk: "x = of_int k * 2 powi e" by (simp add: x_def k_def)
  then have "x / 2 powi e = of_int k" by simp
  then have "round_half_even (x / 2 powi e) = k" by (simp only: round_half_even_of_int)
  then have "rnd x = of_int k * 2 powi e" by (simp only: rnd_def e_def)
  with xk show ?thesis by (simp add: x_def)
qed

lemma rnd_of_int: "\<bar>k\<bar> < 2 ^ 53 \<Longrightarrow> rnd (of_int k) = of_int k"
  using rnd_representable [of k 0] by simp

lemma rnd_numeral [simp]: "numeral n < (2 ^ 53 :: int) \<Longrightarrow> rnd (numeral n) = numeral n"
  using rnd_of_int [of "numeral n"] by simp

lemma rnd_one [simp]: "rnd 1 = 1"
  using rnd_of_int [of 1] by simp

lemma rnd_collapse: "rnd (2 ^ 53 + 1) = 2 ^ 53"
proof -
  have "rnd (2 ^ 53 + 1) = of_int (round_half_even ((2 ^ 53 + 1) / 2 powi (53 - 52))) * 2 powi (53 - 52)"
    by (rule rnd_eval) simp_all
  also have "\<dots> = 2 ^ 53"
    by (simp add: round_half_even_def)
  finally show ?thesis .
qed

lemma rnd_third: "rnd (1 / 3) = 6004799503160661 / 2 ^ 54"
proof -
  have "rnd (1 / 3) = of_int (round_half_even ((1 / 3) / 2 powi (- 2 - 52))) * 2 powi (- 2 - 52)"
    by (rule rnd_eval) (simp_all add: power_int_minus)
  also have "\<dots> = 6004799503160661 / 2 ^ 54"
    by (simp add: round_half_even_def power_int_minus)
  finally show ?thesis .
qed

lemma max_double_ge: "2 ^ 53 \<le> max_double"
proof -
  have "(2::real) ^ 53 \<le> 2 ^ 971" by (rule power_increasing) simp_all
  also have "\<dots> = 1 * 2 ^ 971" by simp
  also have "\<dots> \<le> (2 ^ 53 - 1) * (2::real) ^ 971" by (rule mult_right_mono) simp_all
  finally show ?thesis by (simp only: max_double_def)
qed

lemma to_double_finite:
  assumes "to_double y = Finite r"
  shows "r = rnd y" and "rnd y \<le> max_double" and "- max_double \<le> rnd y"
  using assms by (auto simp add: to_double_def split: if_splits)

lemma to_double_below:
  assumes "0 \<le> x" and "x \<le> y" and "to_double y = Finite r"
  shows "to_double x = Finite (rnd x)" and "0 \<le> rnd x" and "rnd x \<le> r"
proof -
  have r: "r = rnd y" and up: "rnd y \<le> max_double" using to_double_finite [OF assms(3)] by simp_all
  show nn: "0 \<le> rnd x" using assms(1) by (rule rnd_nonneg)
  have le: "rnd x \<le> rnd y" using assms(2) by (rule rnd_mono)
  then show "rnd x \<le> r" by (simp add: r)
  have "0 \<le> max_double" using max_double_ge by simp
  with nn le up show "to_double x = Finite (rnd x)" by (simp add: to_double_def)
qed

lemma to_double_exact:
  assumes "rnd x = x" and "\<bar>x\<bar> \<le> 2 ^ 53"
  shows "to_double x = Finite x"
proof -
  from assms(2) max_double_ge have "x \<le> max_double" "- max_double \<le> x" by linarith+
  with assms(1) show ?thesis by (simp add: to_double_def)
qed

lemma to_double_zero [simp]: "to_double 0 = Finite 0"
  by (rule to_double_exact) simp_all

lemma to_double_one [simp]: "to_double 1 = Finite 1"
  by (rule to_double_exact) simp_all

lemma to_double_numeral [simp]:
  "numeral n < (2 ^ 53 :: int) \<Longrightarrow> to_double (numeral n) = Finite (numeral n)"
proof -
  assume a: "numeral n < (2 ^ 53 :: int)"
  then have "(numeral n :: real) < 2 ^ 53"
    by (metis of_int_less_iff of_int_numeral of_int_power)
  with a show ?thesis by (intro to_double_exact) simp_all
qed

lemma to_double_half [simp]: "to_double (1 / 2) = Finite (1 / 2)"
proof (rule to_double_exact)
  show "rnd (1 / 2) = 1 / 2" using rnd_representable [of 1 "- 1"] by (simp add: power_int_minus)
qed simp

section \<open>The division order of np.corrcoef\<close>

lemma round_half_even_nearest:
  assumes "of_int k - 1 / 2 < t" and "t < of_int k + 1 / 2"
  shows "round_half_even t = k"
proof -
  from assms have "of_int (k - 1) \<le> t" "t < of_int (k + 1)" by simp_all
  then have "k - 1 \<le> \<lfloor>t\<rfloor>" "\<lfloor>t\<rfloor> < k + 1" by linarith+
  then consider "\<lfloor>t\<rfloor> = k - 1" | "\<lfloor>t\<rfloor> = k" by linarith
  then show ?thesis
  proof cases
    case 1
    with assms(1) have "t - of_int \<lfloor>t\<rfloor> > 1 / 2" by simp
    with 1 show ?thesis by (simp add: round_half_even_def Let_def)
  next
    case 2
    with assms(2) have "t - of_int \<lfloor>t\<rfloor> < 1 / 2" by simp
    with 2 show ?thesis by (simp add: round_half_even_def Let_def)
  qed
qed

text \<open>
  The last operations of \<open>np.corrcoef\<close> on the columns \<open>[0, 0, 3]\<close> and \<open>[0, 5, 7]\<close>:
  the covariance \<open>9 / 2\<close> is divided by the two standard deviations, the doubles nearest
  to \<open>sqrt 3\<close> and \<open>sqrt 13\<close>, in the order of the arguments. The two orders give doubles
  that differ in the last place.
\<close>

lemma rnd_sqrt_3: "rnd (sqrt 3) = 3900231685776981 / 2 ^ 51"
proof -
  have lo: "(7800463371553962 - 1 / 2) / 2 ^ 52 < sqrt 3"
    by (rule real_less_rsqrt) (simp add: power2_eq_square)
  have hi: "sqrt 3 < (7800463371553962 + 1 / 2) / 2 ^ 52"
    by (rule real_less_lsqrt) (simp_all add: power2_eq_square)
  have one: "1 \<le> sqrt 3" by simp
  have two: "sqrt 3 < 2" by (rule real_less_lsqrt) simp_all
  have "rnd (sqrt 3) = of_int (round_half_even (sqrt 3 / 2 powi (0 - 52))) * 2 powi (0 - 52)"
    using one two by (intro rnd_eval) simp_all
  moreover have "round_half_even (sqrt 3 / 2 powi (0 - 52)) = 7800463371553962"
    using lo hi by (intro round_half_even_nearest) (simp_all add: power_int_minus field_simps)
  ultimately show ?thesis by (simp add: power_int_minus)
qed


lemma rnd_sqrt_13: "rnd (sqrt 13) = 8118979690322419 / 2 ^ 51"
proof -
  have lo: "(8118979690322419 - 1 / 2) / 2 ^ 51 < sqrt 13"
    by (rule real_less_rsqrt) (simp add: power2_eq_square)
  have hi: "sqrt 13 < (8118979690322419 + 1 / 2) / 2 ^ 51"
    by (rule real_less_lsqrt) (simp_all add: power2_eq_square)
  have one: "2 \<le> sqrt 13" by (rule real_le_rsqrt) simp
  have two: "sqrt 13 < 4" by (rule real_less_lsqrt) simp_all
  have "rnd (sqrt 13) = of_int (round_half_even (sqrt 13 / 2 powi (1 - 52))) * 2 powi (1 - 52)"
    using one two by (intro rnd_eval) simp_all
  moreover have "round_half_even (sqrt 13 / 2 powi (1 - 52)) = 8118979690322419"
    using lo hi by (intro round_half_even_nearest) (simp_all add: power_int_minus field_simps)
  ultimately show ?thesis by (simp add: power_int_minus)
qed

lemma rnd_quotient_a: "rnd (9 / 2 / (3900231685776981 / 2 ^ 51)) = 45705840067699 / 2 ^ 44"
proof -
  have "rnd (9 / 2 / (3900231685776981 / 2 ^ 51))
      = of_int (round_half_even (9 / 2 / (3900231685776981 / 2 ^ 51) / 2 powi (1 - 52))) * 2 powi (1 - 52)"
    by (rule rnd_eval) simp_all
  also have "\<dots> = 45705840067699 / 2 ^ 44"
    by (simp add: round_half_even_def power_int_minus)
  finally show ?thesis .
qed

lemma rnd_quotient_ab: "rnd (45705840067699 / 2 ^ 44 / (8118979690322419 / 2 ^ 51)) = 6490377844273043 / 2 ^ 53"
proof -
  have "rnd (45705840067699 / 2 ^ 44 / (8118979690322419 / 2 ^ 51))
      = of_int (round_half_even (45705840067699 / 2 ^ 44 / (8118979690322419 / 2 ^ 51) / 2 powi (- 1 - 52)))
          * 2 powi (- 1 - 52)"
    by (rule rnd_eval) (simp_all add: power_int_minus)
  also have "\<dots> = 6490377844273043 / 2 ^ 53"
    by (simp add: round_half_even_def power_int_minus)
  finally show ?thesis .
qed

lemma rnd_quotient_b: "rnd (9 / 2 / (8118979690322419 / 2 ^ 51)) = 5620832093300137 / 2 ^ 52"
proof -
  have "rnd (9 / 2 / (8118979690322419 / 2 ^ 51))
      = of_int (round_half_even (9 / 2 / (8118979690322419 / 2 ^ 51) / 2 powi (0 - 52))) * 2 powi (0 - 52)"
    by (rule rnd_eval) simp_all
  also have "\<dots> = 5620832093300137 / 2 ^ 52"
    by (simp add: round_half_even_def power_int_minus)
  finally show ?thesis .
qed

lemma rnd_quotient_ba: "rnd (5620832093300137 / 2 ^ 52 / (3900231685776981 / 2 ^ 51)) = 6490377844273044 / 2 ^ 53"
proof -
  have "rnd (5620832093300137 / 2 ^ 52 / (3900231685776981 / 2 ^ 51))
      = of_int (round_half_even (5620832093300137 / 2 ^ 52 / (3900231685776981 / 2 ^ 51) / 2 powi (- 1 - 52)))
          * 2 powi (- 1 - 52)"
    by (rule rnd_eval) (simp_all add: power_int_minus)
  also have "\<dots> = 6490377844273044 / 2 ^ 53"
    by (simp add: round_half_even_def power_int_minus)
  finally show ?thesis .
qed

lemma corrcoef_division_order:
  "rnd (rnd (9 / 2 / rnd (sqrt 3)) / rnd (sqrt 13)) = 6490377844273043 / 2 ^ 53"
  "rnd (rnd (9 / 2 / rnd (sqrt 13)) / rnd (sqrt 3)) = 6490377844273044 / 2 ^ 53"
  by (simp_all only: rnd_sqrt_3 rnd_sqrt_13 rnd_quotient_a rnd_quotient_ab rnd_quotient_b
      rnd_quotient_ba)

section \<open>Properties of the size transform\<close>

lemma to_double_small: "\<bar>rnd x\<bar> \<le> 2 ^ 53 \<Longrightarrow> to_double x = Finite (rnd x)"
proof -
  assume "\<bar>rnd x\<bar> \<le> 2 ^ 53"
  with max_double_ge have "rnd x \<le> max_double" "- max_double \<le> rnd x" by linarith+
  then show ?thesis by (simp add: to_double_def)
qed

lemma astype_float_numeric: "is_numeric_series s \<Longrightarrow> \<exists>arr. astype_float s = Inr arr \<and> length arr = len s"
  by (cases s) simp_all

lemma length_astype_float: "astype_float s = Inr arr \<Longrightarrow> length arr = len s"
  by (cases s) auto

lemma dsub_finite: "dsub (Finite x) (Finite y) = to_double (x - y)"
  by (simp add: dsub_def)

lemma dsub_nan [simp]: "dsub NotANumber b = NotANumber"
  by (simp add: dsub_def)

lemma scaled_cell:
  assumes rng: "to_double (mx - mn) = Finite r" and nz: "r \<noteq> 0"
    and lo: "mn \<le> x" and hi: "x \<le> mx"
  shows "dadd (Finite 5) (dmul (ddiv (dsub (Finite x) (Finite mn)) (Finite r)) (Finite 20))
           = Finite (rnd (5 + rnd (rnd (rnd (x - mn) / r) * 20)))"
    and "5 \<le> rnd (5 + rnd (rnd (rnd (x - mn) / r) * 20))"
    and "rnd (5 + rnd (rnd (rnd (x - mn) / r) * 20)) \<le> 25"
    and "x = mn \<Longrightarrow> rnd (5 + rnd (rnd (rnd (x - mn) / r) * 20)) = 5"
    and "x = mx \<Longrightarrow> rnd (5 + rnd (rnd (rnd (x - mn) / r) * 20)) = 25"
proof -
  define d where "d = rnd (x - mn)"
  define q where "q = rnd (d / r)"
  define p where "p = rnd (q * 20)"
  have r: "r = rnd (mx - mn)" using to_double_finite(1) [OF rng] .
  from lo hi have x0: "0 \<le> x - mn" and xr: "x - mn \<le> mx - mn" by simp_all
  from to_double_below [OF x0 xr rng]
  have d1: "to_double (x - mn) = Finite d" and d0: "0 \<le> d" and dr: "d \<le> r"
    by (simp_all add: d_def)
  from d0 dr nz have rpos: "0 < r" by simp
  from d0 dr rpos have q0: "0 \<le> d / r" and q1: "d / r \<le> 1" by simp_all
  from to_double_below [OF q0 q1 to_double_one]
  have qd: "to_double (d / r) = Finite q" and qge: "0 \<le> q" and qle: "q \<le> 1"
    by (simp_all add: q_def)
  from qge qle have p0: "0 \<le> q * 20" and p1: "q * 20 \<le> 20" by simp_all
  have t20: "to_double 20 = Finite 20" by simp
  from to_double_below [OF p0 p1 t20]
  have pd: "to_double (q * 20) = Finite p" and pge: "0 \<le> p" and ple: "p \<le> 20"
    by (simp_all add: p_def)
  from pge ple have s0: "0 \<le> 5 + p" and s1: "5 + p \<le> 25" by simp_all
  have t25: "to_double 25 = Finite 25" by simp
  from to_double_below [OF s0 s1 t25]
  have sd: "to_double (5 + p) = Finite (rnd (5 + p))" and sle: "rnd (5 + p) \<le> 25"
    by simp_all
  from pge have "rnd 5 \<le> rnd (5 + p)" by (intro rnd_mono) simp
  then have sge: "5 \<le> rnd (5 + p)" by simp
  show "dadd (Finite 5) (dmul (ddiv (dsub (Finite x) (Finite mn)) (Finite r)) (Finite 20))
           = Finite (rnd (5 + rnd (rnd (rnd (x - mn) / r) * 20)))"
    using nz by (simp add: dsub_finite d1 qd pd sd) (simp add: p_def q_def d_def)
  show "5 \<le> rnd (5 + rnd (rnd (rnd (x - mn) / r) * 20))"
    using sge by (simp add: p_def q_def d_def)
  show "rnd (5 + rnd (rnd (rnd (x - mn) / r) * 20)) \<le> 25"
    using sle by (simp add: p_def q_def d_def)
  show "rnd (5 + rnd (rnd (rnd (x - mn) / r) * 20)) = 5" if "x = mn"
    using that by simp
  show "rnd (5 + rnd (rnd (rnd (x - mn) / r) * 20)) = 25" if "x = mx"
    using that nz by (simp add: r [symmetric])
qed

lemma nan_cell:
  "dadd (Finite 5) (dmul (ddiv (dsub NotANumber b) (Finite r)) (Finite 20)) = NotANumber"
  by simp

lemma size_transform_empty:
  assumes "is_numeric_series s" and "astype_float s = Inr arr" and "dropna arr = []"
  shows "size_transform s = Inr (replicate (len s) (PyInt 10))"
  using assms length_astype_float [OF assms(2)]
  by (simp add: size_transform_def pd_max_def pd_min_def of_float64_def)

lemma size_transform_range:
  assumes "is_numeric_series s" and "astype_float s = Inr arr" and "dropna arr \<noteq> []"
  shows "size_transform s =
     (let mn = Min (set (dropna arr)); rng = to_double (Max (set (dropna arr)) - mn)
      in if rng = Finite 0 \<or> rng = NotANumber then Inr (replicate (len s) (PyInt 10))
         else Inr (map (\<lambda>v. PyFloat (dadd (Finite 5)
                   (dmul (ddiv (dsub (of_float64 v) (Finite mn)) rng) (Finite 20)))) arr))"
  using assms length_astype_float [OF assms(2)]
  by (simp add: size_transform_def pd_max_def pd_min_def of_float64_def dsub_finite Let_def)

lemma size_transform_zero_range:
  assumes "is_numeric_series s" and "astype_float s = Inr arr" and "dropna arr \<noteq> []"
    and "to_double (Max (set (dropna arr)) - Min (set (dropna arr))) = Finite 0"
  shows "size_transform s = Inr (replicate (len s) (PyInt 10))"
  using assms(4) by (simp add: size_transform_range [OF assms(1-3)])

lemma size_transform_finite_range:
  assumes "is_numeric_series s" and "astype_float s = Inr arr" and "dropna arr \<noteq> []"
    and rng: "to_double (Max (set (dropna arr)) - Min (set (dropna arr))) = Finite r" and nz: "r \<noteq> 0"
  shows "size_transform s =
     Inr (map (\<lambda>v. PyFloat (case v of None \<Rightarrow> NotANumber
            | Some x \<Rightarrow> Finite (rnd (5 + rnd (rnd (rnd (x - Min (set (dropna arr))) / r) * 20))))) arr)"
proof -
  have cell: "dadd (Finite 5) (dmul (ddiv (dsub (of_float64 v) (Finite (Min (set (dropna arr)))))
                 (Finite r)) (Finite 20))
      = (case v of None \<Rightarrow> NotANumber
          | Some x \<Rightarrow> Finite (rnd (5 + rnd (rnd (rnd (x - Min (set (dropna arr))) / r) * 20))))"
    if "v \<in> set arr" for v
  proof (cases v)
    case None
    then show ?thesis by (simp add: of_float64_def)
  next
    case (Some x)
    with that have "x \<in> set (dropna arr)" by (simp add: set_dropna)
    then have "Min (set (dropna arr)) \<le> x" "x \<le> Max (set (dropna arr))" by simp_all
    from scaled_cell(1) [OF rng nz this] Some show ?thesis by (simp add: of_float64_def)
  qed
  show ?thesis
    using rng nz by (simp add: size_transform_range [OF assms(1-3)] Let_def cell cong: map_cong)
qed

lemma size_transform_total: "\<exists>sizes. size_transform s = Inr sizes"
proof (cases "is_numeric_series s")
  case True
  then obtain arr where "astype_float s = Inr arr"
    using astype_float_numeric by blast
  with True show ?thesis by (simp add: size_transform_def Let_def)
next
  case False
  then show ?thesis by (simp add: size_transform_def)
qed

lemma rnd_half [simp]: "rnd (1 / 2) = 1 / 2"
  using rnd_representable [of 1 "- 1"] by (simp add: power_int_minus)

lemma rnd_2p53: "rnd 9007199254740992 = 9007199254740992"
  using rnd_representable [of 1 53] by simp

lemma rnd_2p53_plus_1: "rnd 9007199254740993 = 9007199254740992"
  using rnd_collapse by simp

text \<open>
  Claim C6, amended. \<open>size_transform\<close> never raises. A column that \<open>is_numeric_dtype\<close>
  rejects, any dtype other than integer, float and boolean, gets the constant 10 in every
  row. For an integer, float or boolean column take the maximum and the minimum of the
  non-null values after \<open>astype(float)\<close>: when there is no non-null value, or the two are
  equal, or their difference in double arithmetic is zero, every row gets the constant 10;
  when the difference \<open>r\<close> is finite and not zero, a null row gets NaN and every other
  row gets \<open>5 + ((v - min) / r) * 20\<close>, each operation rounded to a double in this order.
\<close>

theorem size_transform_cases:
  "(\<exists>sizes. size_transform s = Inr sizes) \<and>
   (is_numeric_series s \<longleftrightarrow> (\<exists>xs. s = Int64 xs) \<or> (\<exists>xs. s = Float64 xs) \<or> (\<exists>xs. s = Bool xs)) \<and>
   (\<not> is_numeric_series s \<longrightarrow> size_transform s = Inr (replicate (len s) (PyInt 10))) \<and>
   (\<forall>arr. is_numeric_series s \<and> astype_float s = Inr arr \<longrightarrow>
      (dropna arr = [] \<or> Max (set (dropna arr)) = Min (set (dropna arr)) \<or>
       to_double (Max (set (dropna arr)) - Min (set (dropna arr))) = Finite 0 \<longrightarrow>
         size_transform s = Inr (replicate (len s) (PyInt 10))) \<and>
      (\<forall>r. dropna arr \<noteq> [] \<and>
           to_double (Max (set (dropna arr)) - Min (set (dropna arr))) = Finite r \<and> r \<noteq> 0 \<longrightarrow>
         size_transform s =
           Inr (map (\<lambda>v. PyFloat (case v of None \<Rightarrow> NotANumber
                  | Some x \<Rightarrow> Finite (rnd (5 + rnd (rnd (rnd (x - Min (set (dropna arr))) / r) * 20)))))
                arr)))"
proof -
  have non: "size_transform s = Inr (replicate (len s) (PyInt 10))" if "\<not> is_numeric_series s"
    using that by (simp add: size_transform_def)
  have const: "size_transform s = Inr (replicate (len s) (PyInt 10))"
    if "is_numeric_series s" "astype_float s = Inr arr"
      "dropna arr = [] \<or> Max (set (dropna arr)) = Min (set (dropna arr)) \<or>
       to_double (Max (set (dropna arr)) - Min (set (dropna arr))) = Finite 0" for arr
  proof (cases "dropna arr = []")
    case True
    with that show ?thesis by (simp add: size_transform_empty)
  next
    case False
    with that(3) have "to_double (Max (set (dropna arr)) - Min (set (dropna arr))) = Finite 0"
      by auto
    with that(1,2) False show ?thesis by (rule size_transform_zero_range)
  qed
  have dtype: "is_numeric_series s \<longleftrightarrow>
      (\<exists>xs. s = Int64 xs) \<or> (\<exists>xs. s = Float64 xs) \<or> (\<exists>xs. s = Bool xs)"
    by (cases s) simp_all
  from size_transform_total [of s] non const size_transform_finite_range [of s]
  have "(\<exists>sizes. size_transform s = Inr sizes) \<and>
   (\<not> is_numeric_series s \<longrightarrow> size_transform s = Inr (replicate (len s) (PyInt 10))) \<and>
   (\<forall>arr. is_numeric_series s \<and> astype_float s = Inr arr \<longrightarrow>
      (dropna arr = [] \<or> Max (set (dropna arr)) = Min (set (dropna arr)) \<or>
       to_double (Max (set (dropna arr)) - Min (set (dropna arr))) = Finite 0 \<longrightarrow>
         size_transform s = Inr (replicate (len s) (PyInt 10))) \<and>
      (\<forall>r. dropna arr \<noteq> [] \<and>
           to_double (Max (set (dropna arr)) - Min (set (dropna arr))) = Finite r \<and> r \<noteq> 0 \<longrightarrow>
         size_transform s =
           Inr (map (\<lambda>v. PyFloat (case v of None \<Rightarrow> NotANumber
                  | Some x \<Rightarrow> Finite (rnd (5 + rnd (rnd (rnd (x - Min (set (dropna arr))) / r) * 20)))))
                arr)))"
    by blast
  with dtype show ?thesis by blast
qed

text \<open>
  Claim C6, as stated: a non-numeric column gets the constant 10, and a numeric column with
  \<open>max \<noteq> min\<close> is scaled. A boolean column, which is not numeric for the classifier, is
  scaled; the integer column \<open>[2 ^ 53, 2 ^ 53 + 1]\<close> has two values that convert to the same
  double and gets the constant 10.
\<close>

theorem size_transform_cases_counterexample:
  "\<not> is_number (Bool [True, False, True]) \<and>
   size_transform (Bool [True, False, True])
     = Inr [PyFloat (Finite 25), PyFloat (Finite 5), PyFloat (Finite 25)] \<and>
   is_number (Int64 [9007199254740992, 9007199254740993]) \<and>
   size_transform (Int64 [9007199254740992, 9007199254740993]) = Inr [PyInt 10, PyInt 10]"
  by (simp add: size_transform_def pd_max_def pd_min_def of_float64_def dsub_finite
      rnd_2p53 rnd_2p53_plus_1)

theorem size_transform_cases_witness:
  "\<not> is_numeric_series (Object [Text ''a'', NoneValue]) \<and>
   size_transform (Object [Text ''a'', NoneValue]) = Inr [PyInt 10, PyInt 10] \<and>
   is_numeric_series (Float64 [Some 2, NaN, Some 4, Some 3]) \<and>
   size_transform (Float64 [Some 2, NaN, Some 4, Some 3])
     = Inr [PyFloat (Finite 5), PyFloat NotANumber, PyFloat (Finite 25), PyFloat (Finite 15)] \<and>
   is_numeric_series (Int64 [7, 7]) \<and>
   size_transform (Int64 [7, 7]) = Inr [PyInt 10, PyInt 10] \<and>
   size_transform (Float64 [NaN, NaN]) = Inr [PyInt 10, PyInt 10]"
proof -
  have r2: "to_double (Max (set (dropna [Some 2, NaN, Some 4, Some (3::real)]))
              - Min (set (dropna [Some 2, NaN, Some 4, Some 3]))) = Finite 2"
    by simp
  from size_transform_cases [of "Object [Text ''a'', NoneValue]"]
  have a: "size_transform (Object [Text ''a'', NoneValue]) = Inr [PyInt 10, PyInt 10]"
    by simp
  from size_transform_cases [of "Float64 [Some 2, NaN, Some 4, Some 3]"] r2
  have b: "size_transform (Float64 [Some 2, NaN, Some 4, Some 3])
     = Inr [PyFloat (Finite 5), PyFloat NotANumber, PyFloat (Finite 25), PyFloat (Finite 15)]"
    by simp
  from size_transform_cases [of "Int64 [7, 7]"]
  have c: "size_transform (Int64 [7, 7]) = Inr [PyInt 10, PyInt 10]"
    by simp
  from size_transform_cases [of "Float64 [NaN, NaN]"]
  have d: "size_transform (Float64 [NaN, NaN]) = Inr [PyInt 10, PyInt 10]"
    by simp
  from a b c d show ?thesis by simp
qed

text \<open>
  Claim C10, amended. Take a numeric column with a non-null value whose range, the
  maximum minus the minimum of the values after \<open>astype(float)\<close>, computed in double
  arithmetic, is finite and not zero. Its size is NaN in every null row; in every other
  row it lies in [5, 25], is 5 at the column minimum and 25 at the column maximum.
\<close>

theorem size_transform_scaled:
  assumes "is_numeric_series s" and "astype_float s = Inr arr" and "dropna arr \<noteq> []"
    and "to_double (Max (set (dropna arr)) - Min (set (dropna arr))) = Finite r" and "r \<noteq> 0"
  shows "\<exists>sizes. size_transform s = Inr sizes \<and> length sizes = len s \<and>
           (\<forall>k < len s.
              (arr ! k = NaN \<longrightarrow> sizes ! k = PyFloat NotANumber) \<and>
              (\<forall>v. arr ! k = Some v \<longrightarrow>
                 (\<exists>y. sizes ! k = PyFloat (Finite y) \<and> 5 \<le> y \<and> y \<le> 25 \<and>
                      (v = Min (set (dropna arr)) \<longrightarrow> y = 5) \<and>
                      (v = Max (set (dropna arr)) \<longrightarrow> y = 25))))"
proof -
  define mn where "mn = Min (set (dropna arr))"
  define mx where "mx = Max (set (dropna arr))"
  define f where "f = (\<lambda>x. rnd (5 + rnd (rnd (rnd (x - mn) / r) * 20)))"
  define sizes where
    "sizes = map (\<lambda>v. PyFloat (case v of None \<Rightarrow> NotANumber | Some x \<Rightarrow> Finite (f x))) arr"
  have rng: "to_double (mx - mn) = Finite r" using assms(4) by (simp add: mn_def mx_def)
  have n: "length arr = len s" using assms(2) by (rule length_astype_float)
  have st: "size_transform s = Inr sizes"
    using size_transform_finite_range [OF assms] unfolding sizes_def f_def mn_def .
  have cell: "\<exists>y. sizes ! k = PyFloat (Finite y) \<and> 5 \<le> y \<and> y \<le> 25 \<and>
                (v = mn \<longrightarrow> y = 5) \<and> (v = mx \<longrightarrow> y = 25)"
    if k: "k < len s" and v: "arr ! k = Some v" for k v
  proof -
    from k v n have "Some v \<in> set arr" by (metis nth_mem)
    then have "v \<in> set (dropna arr)" by (simp add: set_dropna)
    then have lo: "mn \<le> v" and hi: "v \<le> mx" by (simp_all add: mn_def mx_def)
    have "sizes ! k = PyFloat (Finite (f v))" using k v n by (simp add: sizes_def)
    moreover have "5 \<le> f v" "f v \<le> 25" "v = mn \<longrightarrow> f v = 5" "v = mx \<longrightarrow> f v = 25"
      using scaled_cell(2-5) [OF rng assms(5) lo hi] by (simp_all add: f_def)
    ultimately show ?thesis by blast
  qed
  have null: "sizes ! k = PyFloat NotANumber" if "k < len s" "arr ! k = NaN" for k
    using that n by (simp add: sizes_def)
  from st n cell null show ?thesis
    unfolding mn_def mx_def by (intro exI [of _ sizes]) (simp add: sizes_def)
qed

text \<open>
  Claim C10, as stated: a numeric column with at least two distinct non-null values has its
  minimum mapped to 5 and its maximum to 25. The integers \<open>2 ^ 53\<close> and \<open>2 ^ 53 + 1\<close> are
  distinct and convert to the same double, so the range is zero and every row gets the
  constant 10.
\<close>

theorem size_transform_scaled_counterexample:
  "is_numeric_series (Int64 [9007199254740992, 9007199254740993]) \<and>
   nunique (Int64 [9007199254740992, 9007199254740993]) = 2 \<and>
   size_transform (Int64 [9007199254740992, 9007199254740993]) = Inr [PyInt 10, PyInt 10] \<and>
   [PyInt 10, PyInt 10] ! 0 \<noteq> PyFloat (Finite 5)"
  by (simp add: size_transform_def pd_max_def pd_min_def of_float64_def dsub_finite
      rnd_2p53 rnd_2p53_plus_1)

theorem size_transform_scaled_witness:
  "is_numeric_series (Float64 [Some 2, NaN, Some 4, Some 3]) \<and>
   to_double (Max (set (dropna [Some 2, NaN, Some 4, Some (3::real)]))
              - Min (set (dropna [Some 2, NaN, Some 4, Some 3]))) = Finite 2 \<and>
   (\<exists>sizes. size_transform (Float64 [Some 2, NaN, Some 4, Some 3]) = Inr sizes \<and>
      sizes ! 1 = PyFloat NotANumber \<and> sizes ! 0 = PyFloat (Finite 5) \<and>
      sizes ! 2 = PyFloat (Finite 25))"
proof -
  have num: "is_numeric_series (Float64 [Some 2, NaN, Some 4, Some 3])" by simp
  have arr: "astype_float (Float64 [Some 2, NaN, Some 4, Some 3]) = Inr [Some 2, NaN, Some 4, Some 3]"
    by simp
  have ne: "dropna [Some 2, NaN, Some 4, Some (3::real)] \<noteq> []" by simp
  have rng: "to_double (Max (set (dropna [Some 2, NaN, Some 4, Some (3::real)]))
              - Min (set (dropna [Some 2, NaN, Some 4, Some 3]))) = Finite 2"
    by simp
  have nz: "(2::real) \<noteq> 0" by simp
  from size_transform_scaled [OF num arr ne rng nz] obtain sizes
    where st: "size_transform (Float64 [Some 2, NaN, Some 4, Some 3]) = Inr sizes"
      and cells: "\<forall>k < 4.
              ([Some 2, NaN, Some 4, Some (3::real)] ! k = NaN \<longrightarrow> sizes ! k = PyFloat NotANumber) \<and>
              (\<forall>v. [Some 2, NaN, Some 4, Some 3] ! k = Some v \<longrightarrow>
                 (\<exists>y. sizes ! k = PyFloat (Finite y) \<and> 5 \<le> y \<and> y \<le> 25 \<and>
                      (v = Min (set (dropna [Some 2, NaN, Some 4, Some 3])) \<longrightarrow> y = 5) \<and>
                      (v = Max (set (dropna [Some 2, NaN, Some 4, Some 3])) \<longrightarrow> y = 25)))"
    by auto
  from cells have "sizes ! 1 = PyFloat NotANumber" by force
  moreover from cells [rule_format, of 0] have "sizes ! 0 = PyFloat (Finite 5)" by auto
  moreover from cells [rule_format, of 2] have "sizes ! 2 = PyFloat (Finite 25)" by auto
  ultimately show ?thesis using num rng st by blast
qed

lemma rnd_third_times_20: "rnd (6004799503160661 / 2 ^ 54 * 20) = 7505999378950826 / 2 ^ 50"
proof -
  have "rnd (6004799503160661 / 2 ^ 54 * 20)
      = of_int (round_half_even ((6004799503160661 / 2 ^ 54 * 20) / 2 powi (2 - 52))) * 2 powi (2 - 52)"
    by (rule rnd_eval) simp_all
  also have "\<dots> = 7505999378950826 / 2 ^ 50"
    by (simp add: round_half_even_def power_int_minus)
  finally show ?thesis .
qed

lemma rnd_5_plus: "rnd (5 + 7505999378950826 / 2 ^ 50) = 6567749456581973 / 2 ^ 49"
proof -
  have "rnd (5 + 7505999378950826 / 2 ^ 50)
      = of_int (round_half_even ((5 + 7505999378950826 / 2 ^ 50) / 2 powi (3 - 52))) * 2 powi (3 - 52)"
    by (rule rnd_eval) simp_all
  also have "\<dots> = 6567749456581973 / 2 ^ 49"
    by (simp add: round_half_even_def power_int_minus)
  finally show ?thesis .
qed

text \<open>
  Two runs of the rounding: the middle row of \<open>[0, 1, 3]\<close> is 11.666666666666666, and the
  range of \<open>[1e308, -1e308, 0]\<close> overflows to infinity, which gives NaN at the maximum and
  5 elsewhere.
\<close>

lemma size_transform_rounding_example:
  "size_transform (Float64 [Some 0, Some 1, Some 3])
     = Inr [PyFloat (Finite 5), PyFloat (Finite (6567749456581973 / 2 ^ 49)), PyFloat (Finite 25)]"
proof -
  have rng: "to_double (Max (set (dropna [Some 0, Some 1, Some (3::real)]))
               - Min (set (dropna [Some 0, Some 1, Some 3]))) = Finite 3"
    by simp
  have "size_transform (Float64 [Some 0, Some 1, Some 3])
     = Inr [PyFloat (Finite 5), PyFloat (Finite (rnd (5 + rnd (rnd (1 / 3) * 20)))), PyFloat (Finite 25)]"
    using size_transform_finite_range [of "Float64 [Some 0, Some 1, Some 3]" _ 3] rng by simp
  then show ?thesis by (simp only: rnd_third rnd_third_times_20 rnd_5_plus)
qed

lemma size_transform_overflow_example:
  assumes a: "a = 5010420900022432 * 2 ^ 971"
  shows "size_transform (Float64 [Some a, Some (- a), Some 0])
     = Inr [PyFloat NotANumber, PyFloat (Finite 5), PyFloat (Finite 5)]"
proof -
  have pos: "0 < a" by (simp add: a)
  have ra: "rnd a = a"
    using rnd_representable [of 5010420900022432 971] by (simp add: a)
  have r2a: "rnd (a + a) = a + a"
    using rnd_representable [of 5010420900022432 972] by (simp add: a)
  have "max_double < 10020841800044864 * 2 ^ 971"
    unfolding max_double_def by (rule mult_strict_right_mono) simp_all
  then have big: "max_double < a + a" by (simp add: a)
  have "a < 2 ^ 53 * 2 ^ 971" unfolding a by (rule mult_strict_right_mono) simp_all
  moreover have "(2::real) ^ 53 * 2 ^ 971 = 2 * ((2 ^ 53 - 1) * 2 ^ 971) - (2 ^ 53 - 2) * 2 ^ 971"
    by (simp add: algebra_simps)
  ultimately have small: "a \<le> max_double"
    unfolding max_double_def a by (simp add: algebra_simps)
  from r2a have r2a': "rnd (2 * a) = 2 * a" by simp
  have inf: "to_double (2 * a) = PosInf" using big by (simp add: to_double_def r2a')
  have fin: "to_double a = Finite a" using small pos by (simp add: to_double_def ra)
  have mx: "Max (set (dropna [Some a, Some (- a), Some 0])) = a"
    and mn: "Min (set (dropna [Some a, Some (- a), Some 0])) = - a"
    using pos by (simp_all add: max_def min_def)
  have ne: "dropna [Some a, Some (- a), Some 0] \<noteq> []" by simp
  show ?thesis
    using pos
    by (simp add: size_transform_def pd_max_def pd_min_def of_float64_def dsub_def mx mn ne inf fin
        del: dropna.simps)
qed

section \<open>Properties of the scatter menus\<close>



lemma buttons_empty_table:
  "x_buttons [] = Inl IndexError" "y_buttons [] = Inl IndexError"
  "size_buttons [] = Inl IndexError" "color_buttons [] = Inl IndexError"
  by (simp_all add: x_buttons_def y_buttons_def size_buttons_def color_buttons_def columns_def)


lemma x_buttons_example:
  "x_buttons [(''species'', Object [Text ''a'', NoneValue, NaNValue]), (''len'', Float64 [Some 1, Some 2, NaN])]
     = Inr [\<lparr>button_method = ''update'', label = ''species'',
               args = [RestyleDict (Some [(''x'', Arrays [[PyStr ''a'', PyStr ''None'', PyStr ''nan'']])]),
                       RelayoutDict (Dict [(''xaxis'', Dict [(''title'', Dict [(''text'', Leaf ''species'')])])])]\<rparr>,
            \<lparr>button_method = ''update'', label = ''len'',
               args = [RestyleDict (Some [(''x'', Arrays [[PyFloat (Finite 1), PyFloat (Finite 2), PyFloat NotANumber]])]),
                       RelayoutDict (Dict [(''xaxis'', Dict [(''title'', Dict [(''text'', Leaf ''len'')])])])]\<rparr>]"
  by (simp add: x_buttons_def make_button_def of_float64_def columns_def)

lemma color_buttons_example:
  "color_buttons [(''species'', Object [Text ''a'', NoneValue, NaNValue]), (''len'', Float64 [Some 1, Some 2, NaN])]
     = Inr [\<lparr>button_method = ''restyle'', label = ''species'',
               args = [RestyleDict (Some [(''marker.color'', Arrays [[PyStr ''a'', PyNone, PyFloat NotANumber]]),
                                          (''marker.colorscale'', Scalar PyNone),
                                          (''marker.showscale'', Scalar (PyBool False))]),
                       TraceIndices [0]]\<rparr>,
            \<lparr>button_method = ''restyle'', label = ''len'',
               args = [RestyleDict (Some [(''marker.color'', Arrays [[PyFloat (Finite 1), PyFloat (Finite 2), PyFloat NotANumber]]),
                                          (''marker.colorscale'', Scalar (PyStr ''Viridis'')),
                                          (''marker.showscale'', Scalar (PyBool True))]),
                       TraceIndices [0]]\<rparr>]"
  by (simp add: color_buttons_def make_button_def is_numeric_column_def getitem_def of_float64_def
      columns_def)




end
